theory Spec2Isabelle
  imports Complex_Main "HOL-Library.Word"
begin

section \<open>Plantopia: DEM to heightmap conversion\<close>

text \<open>
  A shallow embedding of the raster pipeline of \<^verbatim>\<open>backend/app.py\<close> and of the
  stand-alone scripts \<^verbatim>\<open>dem_processor.py\<close> and \<^verbatim>\<open>dem_processor_alt.py\<close>.

  A numpy float is a double: a real number or one of the three IEEE special values.
  The arithmetic the repository itself writes (\<^verbatim>\<open>-\<close>, \<^verbatim>\<open>/\<close>, \<^verbatim>\<open>*\<close> on arrays) rounds
  each result to the nearest double, ties to even, and overflows to an infinity, as IEEE
  754 prescribes; the sign of zero is not tracked. The band of a raster is modelled as
  read into an array of doubles, as in the data model of the specification; the
  normalizer of the scripts is given a second time on a band of 16-bit integers, whose
  numpy arithmetic wraps around.
  The libraries the code calls (rasterio/GDAL decoding, scipy, PIL) are not part of the
  repository; where a result depends on them, the library function is either a parameter
  of the model or is written down from its documented behaviour, and the text says which.
  Inside a library function that is written down this way the arithmetic is exact.
\<close>

subsection \<open>Rasters and files\<close>

text \<open>
  A 2-D array is the list of its rows. A sample is a finite number, an infinity or NaN.
  A decoded raster is its first band, read as an array of doubles, and the no-data value
  the dataset declares, if any.
\<close>

type_synonym 'a grid = "'a list list"

datatype fl = Fin real | PInf | NInf | NaN

record raster =
  band1 :: "fl grid"
  nodata :: "fl option"

text \<open>
  A file is characterised by what a decoder makes of it: a raster that rasterio or GDAL can
  open, a 16-bit grayscale image written by the pipeline, or bytes no decoder accepts.
\<close>

datatype content = Tiff raster | Png16 "16 word grid" | Bytes

datatype fs_event = Exists string | Open_raster string | Remove string
  | Makedirs string | Write_file string | Read_file string

record world =
  files :: "string \<rightharpoonup> content"
  fs_log :: "fs_event list"

definition UPLOAD_FOLDER :: string where
  "UPLOAD_FOLDER = ''temp''"

text \<open>\<^verbatim>\<open>os.path.join(a, b)\<close> on a POSIX system, for two components.\<close>

definition path_join :: "string \<Rightarrow> string \<Rightarrow> string" where
  "path_join a b =
     (if b \<noteq> [] \<and> hd b = CHR ''/'' then b
      else if a = [] \<or> last a = CHR ''/'' then a @ b
      else a @ ''/'' @ b)"

definition os_path_exists :: "string \<Rightarrow> world \<Rightarrow> bool \<times> world" where
  "os_path_exists p w = (files w p \<noteq> None, w\<lparr>fs_log := fs_log w @ [Exists p]\<rparr>)"

text \<open>
  \<^verbatim>\<open>os.remove\<close> is only called on a path that was just seen to exist; the store holds
  regular files only, so the removal succeeds.
\<close>

definition os_remove :: "string \<Rightarrow> world \<Rightarrow> world" where
  "os_remove p w = w\<lparr>files := (files w)(p := None), fs_log := fs_log w @ [Remove p]\<rparr>"

subsection \<open>Requests and responses\<close>

text \<open>
  The JSON body of a request: \<^verbatim>\<open>data.get('file_id')\<close> is \<open>None\<close> when the key is
  absent, and \<^verbatim>\<open>data.get('resolution', 513)\<close> falls back to 513. A resolution that is
  present is taken to be a JSON integer.
\<close>

record request =
  req_file_id :: "string option"
  req_resolution :: "int option"

datatype py_error = ValueError | ZeroDivisionError | RasterioIOError | QhullError
  | FileNotFoundError | LibraryError

datatype message = Msg string | Msg_for string string | Exc py_error

datatype response =
    Error_response nat message
  | Cleanup_response nat "string list"
  | Send_file string string

definition dem_tif :: "string \<Rightarrow> string" where
  "dem_tif file_id = ''dem_'' @ file_id @ ''.tif''"

definition dem_heightmap_png :: "string \<Rightarrow> string" where
  "dem_heightmap_png file_id = ''dem_'' @ file_id @ ''_heightmap.png''"

subsection \<open>\<^verbatim>\<open>/api/cleanup\<close>\<close>

text \<open>The loop over \<^verbatim>\<open>patterns\<close>, with the list \<^verbatim>\<open>deleted\<close> as accumulator.\<close>

fun cleanup_loop :: "string list \<Rightarrow> world \<Rightarrow> string list \<Rightarrow> world \<times> string list" where
  "cleanup_loop [] w deleted = (w, deleted)"
| "cleanup_loop (pattern # ps) w deleted =
     (let file_path = path_join UPLOAD_FOLDER pattern;
          (ex, w1) = os_path_exists file_path w
      in if ex then cleanup_loop ps (os_remove file_path w1) (deleted @ [pattern])
         else cleanup_loop ps w1 deleted)"

definition cleanup :: "request \<Rightarrow> world \<Rightarrow> world \<times> response" where
  "cleanup req w =
     (case req_file_id req of
        None \<Rightarrow> (w, Error_response 400 (Msg ''file_id is required''))
      | Some file_id \<Rightarrow>
          if file_id = [] then (w, Error_response 400 (Msg ''file_id is required''))
          else
            let patterns = [dem_tif file_id, dem_heightmap_png file_id];
                (w', deleted) = cleanup_loop patterns w []
            in (w', Cleanup_response (length deleted) deleted))"


subsection \<open>numpy floats\<close>

text \<open>
  Rounding of a real number to the nearest double, ties to even. \<open>py_round\<close> is the
  rounding of a real to the nearest integer with ties to the even one (which is also
  Python's \<^verbatim>\<open>round\<close> on a float). \<open>expo x\<close> counts the binary exponent of \<open>x\<close> from the
  smallest normal exponent \<open>-1022\<close>, and is 0 for a subnormal \<open>x\<close>; \<open>ulp x\<close> is the
  distance between the doubles around \<open>x\<close>, \<^verbatim>\<open>2^(e-52)\<close> for a normal \<open>x\<close> of exponent \<open>e\<close> and
  \<^verbatim>\<open>2^(-1074)\<close> for a subnormal one. \<open>rd x\<close> is the multiple of \<open>ulp x\<close> nearest to \<open>x\<close>, and
  \<open>fl_of x\<close> the double an operation with the exact result \<open>x\<close> returns: an infinity
  when \<open>rd x\<close> exceeds the largest double.
\<close>

definition py_round :: "real \<Rightarrow> int" where
  "py_round x =
     (let f = \<lfloor>x\<rfloor>
      in if x - of_int f < 1 / 2 then f
         else if 1 / 2 < x - of_int f then f + 1
         else if even f then f else f + 1)"

fun bits :: "nat \<Rightarrow> nat" where
  "bits n = (if n < 2 then 0 else Suc (bits (n div 2)))"

declare bits.simps [simp del]

definition two_1022 :: real where
  "two_1022 = 2 ^ 1022"

definition two_1074 :: real where
  "two_1074 = 2 ^ 1074"

definition expo :: "real \<Rightarrow> nat" where
  "expo x = bits (nat \<lfloor>\<bar>x\<bar> * two_1022\<rfloor>)"

definition ulp :: "real \<Rightarrow> real" where
  "ulp x = 2 ^ expo x / two_1074"

definition rd :: "real \<Rightarrow> real" where
  "rd x = of_int (py_round (x / ulp x)) * ulp x"

definition dbl_max :: real where
  "dbl_max = (2 ^ 53 - 1) * 2 ^ 971"

definition fl_of :: "real \<Rightarrow> fl" where
  "fl_of x = (if dbl_max < \<bar>rd x\<bar> then (if 0 < x then PInf else NInf) else Fin (rd x))"

text \<open>A real number that is a double.\<close>

definition is_double :: "real \<Rightarrow> bool" where
  "is_double x \<longleftrightarrow> rd x = x \<and> \<bar>x\<bar> \<le> dbl_max"

text \<open>
  The IEEE rules for the special values; a division of a non-zero number by zero takes
  the sign of the numerator.
\<close>

fun isnan :: "fl \<Rightarrow> bool" where
  "isnan NaN = True"
| "isnan _ = False"


fun fl_less :: "fl \<Rightarrow> fl \<Rightarrow> bool" where
  "fl_less (Fin a) (Fin b) = (a < b)"
| "fl_less (Fin a) PInf = True"
| "fl_less NInf (Fin b) = True"
| "fl_less NInf PInf = True"
| "fl_less _ _ = False"

fun fl_eq :: "fl \<Rightarrow> fl \<Rightarrow> bool" where
  "fl_eq (Fin a) (Fin b) = (a = b)"
| "fl_eq PInf PInf = True"
| "fl_eq NInf NInf = True"
| "fl_eq _ _ = False"

fun fl_neg :: "fl \<Rightarrow> fl" where
  "fl_neg (Fin a) = Fin (- a)"
| "fl_neg PInf = NInf"
| "fl_neg NInf = PInf"
| "fl_neg NaN = NaN"

fun fl_add :: "fl \<Rightarrow> fl \<Rightarrow> fl" where
  "fl_add (Fin a) (Fin b) = fl_of (a + b)"
| "fl_add NaN _ = NaN"
| "fl_add _ NaN = NaN"
| "fl_add PInf NInf = NaN"
| "fl_add NInf PInf = NaN"
| "fl_add PInf _ = PInf"
| "fl_add _ PInf = PInf"
| "fl_add NInf _ = NInf"
| "fl_add _ NInf = NInf"

definition fl_sub :: "fl \<Rightarrow> fl \<Rightarrow> fl" where
  "fl_sub a b = fl_add a (fl_neg b)"

definition signed_inf :: "real \<Rightarrow> fl" where
  "signed_inf a = (if a = 0 then NaN else if 0 < a then PInf else NInf)"

fun fl_mul :: "fl \<Rightarrow> fl \<Rightarrow> fl" where
  "fl_mul (Fin a) (Fin b) = fl_of (a * b)"
| "fl_mul NaN _ = NaN"
| "fl_mul _ NaN = NaN"
| "fl_mul (Fin a) PInf = signed_inf a"
| "fl_mul (Fin a) NInf = signed_inf (- a)"
| "fl_mul PInf (Fin b) = signed_inf b"
| "fl_mul NInf (Fin b) = signed_inf (- b)"
| "fl_mul PInf PInf = PInf"
| "fl_mul NInf NInf = PInf"
| "fl_mul PInf NInf = NInf"
| "fl_mul NInf PInf = NInf"

fun fl_div :: "fl \<Rightarrow> fl \<Rightarrow> fl" where
  "fl_div (Fin a) (Fin b) = (if b = 0 then signed_inf a else fl_of (a / b))"
| "fl_div NaN _ = NaN"
| "fl_div _ NaN = NaN"
| "fl_div (Fin a) PInf = Fin 0"
| "fl_div (Fin a) NInf = Fin 0"
| "fl_div PInf (Fin b) = (if 0 \<le> b then PInf else NInf)"
| "fl_div NInf (Fin b) = (if 0 \<le> b then NInf else PInf)"
| "fl_div _ _ = NaN"

text \<open>The same operations without rounding, for the library functions written down below.\<close>

fun lib_add :: "fl \<Rightarrow> fl \<Rightarrow> fl" where
  "lib_add (Fin a) (Fin b) = Fin (a + b)"
| "lib_add NaN _ = NaN"
| "lib_add _ NaN = NaN"
| "lib_add PInf NInf = NaN"
| "lib_add NInf PInf = NaN"
| "lib_add PInf _ = PInf"
| "lib_add _ PInf = PInf"
| "lib_add NInf _ = NInf"
| "lib_add _ NInf = NInf"

fun lib_mul :: "fl \<Rightarrow> fl \<Rightarrow> fl" where
  "lib_mul (Fin a) (Fin b) = Fin (a * b)"
| "lib_mul NaN _ = NaN"
| "lib_mul _ NaN = NaN"
| "lib_mul (Fin a) PInf = signed_inf a"
| "lib_mul (Fin a) NInf = signed_inf (- a)"
| "lib_mul PInf (Fin b) = signed_inf b"
| "lib_mul NInf (Fin b) = signed_inf (- b)"
| "lib_mul PInf PInf = PInf"
| "lib_mul NInf NInf = PInf"
| "lib_mul PInf NInf = NInf"
| "lib_mul NInf PInf = NInf"

fun lib_div :: "fl \<Rightarrow> fl \<Rightarrow> fl" where
  "lib_div (Fin a) (Fin b) = (if b = 0 then signed_inf a else Fin (a / b))"
| "lib_div NaN _ = NaN"
| "lib_div _ NaN = NaN"
| "lib_div (Fin a) PInf = Fin 0"
| "lib_div (Fin a) NInf = Fin 0"
| "lib_div PInf (Fin b) = (if 0 \<le> b then PInf else NInf)"
| "lib_div NInf (Fin b) = (if 0 \<le> b then NInf else PInf)"
| "lib_div _ _ = NaN"

subsection \<open>numpy reductions\<close>

text \<open>
  \<^verbatim>\<open>np.min\<close> and \<^verbatim>\<open>np.max\<close> propagate a NaN; \<^verbatim>\<open>np.nanmin\<close> and \<^verbatim>\<open>np.nanmax\<close> skip NaN
  cells and give NaN only when every cell is NaN. All four raise \<^verbatim>\<open>ValueError\<close> on a
  zero-size array. The argument is the array flattened in row-major order.
  \<^verbatim>\<open>np.nanmean\<close> is the mean of the cells that are not NaN; the order in which numpy
  adds them up is not modelled, and the sum and the quotient are exact here.
\<close>

definition min2 :: "fl \<Rightarrow> fl \<Rightarrow> fl" where
  "min2 b a = (if isnan a \<or> isnan b then NaN else if fl_less b a then b else a)"

definition max2 :: "fl \<Rightarrow> fl \<Rightarrow> fl" where
  "max2 b a = (if isnan a \<or> isnan b then NaN else if fl_less a b then b else a)"

definition nanmin2 :: "fl \<Rightarrow> fl \<Rightarrow> fl" where
  "nanmin2 b a = (if isnan a then b else if isnan b then a else if fl_less b a then b else a)"

definition nanmax2 :: "fl \<Rightarrow> fl \<Rightarrow> fl" where
  "nanmax2 b a = (if isnan a then b else if isnan b then a else if fl_less a b then b else a)"

definition reduce :: "(fl \<Rightarrow> fl \<Rightarrow> fl) \<Rightarrow> fl list \<Rightarrow> py_error + fl" where
  "reduce f cells = (case cells of [] \<Rightarrow> Inl ValueError | x # xs \<Rightarrow> Inr (fold f xs x))"

definition np_min :: "fl list \<Rightarrow> py_error + fl" where
  "np_min = reduce min2"

definition np_max :: "fl list \<Rightarrow> py_error + fl" where
  "np_max = reduce max2"

definition np_nanmin :: "fl list \<Rightarrow> py_error + fl" where
  "np_nanmin = reduce nanmin2"

definition np_nanmax :: "fl list \<Rightarrow> py_error + fl" where
  "np_nanmax = reduce nanmax2"

definition np_nanmean :: "fl list \<Rightarrow> fl" where
  "np_nanmean values =
     (let known = filter (\<lambda>v. \<not> isnan v) values
      in lib_div (fold (\<lambda>v acc. lib_add acc v) known (Fin 0)) (Fin (real (length known))))"

definition zeros_like :: "fl grid \<Rightarrow> fl grid" where
  "zeros_like g = map (map (\<lambda>_. Fin 0)) g"

text \<open>\<^verbatim>\<open>np.nan_to_num(x, nan=0.0)\<close>: the infinities become the largest finite doubles.\<close>

fun nan_to_num :: "fl \<Rightarrow> fl" where
  "nan_to_num NaN = Fin 0"
| "nan_to_num PInf = Fin dbl_max"
| "nan_to_num NInf = Fin (- dbl_max)"
| "nan_to_num (Fin a) = Fin a"

subsection \<open>Normalizer\<close>

definition rescale :: "fl \<Rightarrow> fl \<Rightarrow> fl grid \<Rightarrow> fl grid" where
  "rescale lo hi g = map (map (\<lambda>x. fl_div (fl_sub x lo) (fl_sub hi lo))) g"

text \<open>\<^verbatim>\<open>backend/app.py\<close>, \<^verbatim>\<open>process_dem_to_heightmap\<close>: the block "Normalize to 0-1 range".\<close>

definition normalize_backend :: "fl grid \<Rightarrow> py_error + fl grid" where
  "normalize_backend elevation_data =
     (case np_nanmin (concat elevation_data) of
        Inl e \<Rightarrow> Inl e
      | Inr min_elevation \<Rightarrow>
          (case np_nanmax (concat elevation_data) of
             Inl e \<Rightarrow> Inl e
           | Inr max_elevation \<Rightarrow>
               if fl_less min_elevation max_elevation
               then Inr (rescale min_elevation max_elevation elevation_data)
               else Inr (zeros_like elevation_data)))"

text \<open>
  \<^verbatim>\<open>dem_processor.py\<close>, \<^verbatim>\<open>process_dem_to_heightmap\<close>, and the identical block of
  \<^verbatim>\<open>process_dem_with_gdal\<close> in \<^verbatim>\<open>dem_processor_alt.py\<close>: the band is normalized as it
  was read, and the no-data value of the band is not looked at.
\<close>

definition normalize_gdal :: "fl grid \<Rightarrow> py_error + fl grid" where
  "normalize_gdal elevation_data =
     (case np_min (concat elevation_data) of
        Inl e \<Rightarrow> Inl e
      | Inr min_elev \<Rightarrow>
          (case np_max (concat elevation_data) of
             Inl e \<Rightarrow> Inl e
           | Inr max_elev \<Rightarrow>
               if fl_eq max_elev min_elev
               then Inr (zeros_like elevation_data)
               else Inr (rescale min_elev max_elev elevation_data)))"


text \<open>
  \<^verbatim>\<open>np.where(elevation_data == nodata, np.nan, elevation_data)\<close>, done by the backend and by
  \<^verbatim>\<open>process_dem_with_rasterio\<close> when the dataset declares a no-data value.
\<close>

definition handle_nodata :: "raster \<Rightarrow> fl grid" where
  "handle_nodata src =
     (case nodata src of
        None \<Rightarrow> band1 src
      | Some nd \<Rightarrow> map (map (\<lambda>x. if fl_eq x nd then NaN else x)) (band1 src))"

text \<open>
  \<^verbatim>\<open>dem_processor_alt.py\<close>, \<^verbatim>\<open>process_dem_with_rasterio\<close>: normalization before and after
  "Replace NaN with 0".
\<close>

definition rasterio_scaled :: "fl grid \<Rightarrow> py_error + fl grid" where
  "rasterio_scaled elevation_data =
     (case np_nanmin (concat elevation_data) of
        Inl e \<Rightarrow> Inl e
      | Inr min_elev \<Rightarrow>
          (case np_nanmax (concat elevation_data) of
             Inl e \<Rightarrow> Inl e
           | Inr max_elev \<Rightarrow>
               if fl_eq max_elev min_elev
               then Inr (zeros_like elevation_data)
               else Inr (rescale min_elev max_elev elevation_data)))"

definition normalize_rasterio :: "fl grid \<Rightarrow> py_error + fl grid" where
  "normalize_rasterio elevation_data =
     (case rasterio_scaled elevation_data of
        Inl e \<Rightarrow> Inl e
      | Inr normalized \<Rightarrow> Inr (map (map nan_to_num) normalized))"

subsection \<open>Quantizer\<close>

text \<open>
  \<^verbatim>\<open>astype(np.uint8)\<close> and \<^verbatim>\<open>astype(np.uint16)\<close> drop the fraction of a double (the C
  conversion truncates towards zero). C leaves the conversion of NaN, of an infinity and
  of a value outside the target range undefined; the model gives what numpy returns on
  x86-64 (0, and the low bits of the truncated value), and no theorem below depends on it.
\<close>

definition trunc :: "real \<Rightarrow> int" where
  "trunc r = (if 0 \<le> r then \<lfloor>r\<rfloor> else \<lceil>r\<rceil>)"

fun astype_uint8 :: "fl \<Rightarrow> 8 word" where
  "astype_uint8 (Fin r) = word_of_int (trunc r)"
| "astype_uint8 _ = 0"

fun astype_uint16 :: "fl \<Rightarrow> 16 word" where
  "astype_uint16 (Fin r) = word_of_int (trunc r)"
| "astype_uint16 _ = 0"

text \<open>\<^verbatim>\<open>(normalized * 255).astype(np.uint8)\<close> (backend, \<^verbatim>\<open>save_heightmap_8bit\<close>).\<close>

definition quantize_8bit :: "fl \<Rightarrow> 8 word" where
  "quantize_8bit x = astype_uint8 (fl_mul x (Fin 255))"

text \<open>\<^verbatim>\<open>(resized * 65535).astype(np.uint16)\<close> (scripts, \<^verbatim>\<open>save_heightmap_16bit\<close>).\<close>

definition quantize_16bit :: "fl \<Rightarrow> 16 word" where
  "quantize_16bit x = astype_uint16 (fl_mul x (Fin 65535))"

text \<open>\<^verbatim>\<open>(np.array(image) / 255.0 * 65535).astype(np.uint16)\<close>, on one 8-bit pixel.\<close>

definition to_16bit :: "8 word \<Rightarrow> 16 word" where
  "to_16bit p = astype_uint16 (fl_mul (fl_div (Fin (real (unat p))) (Fin 255)) (Fin 65535))"


subsection \<open>Arrays\<close>

definition shape :: "'a grid \<Rightarrow> nat \<times> nat" where
  "shape g = (length g, case g of [] \<Rightarrow> 0 | row # _ \<Rightarrow> length row)"

text \<open>The cells of an array with their (row, column) index, in row-major order.\<close>

definition indexed :: "'a grid \<Rightarrow> ((nat \<times> nat) \<times> 'a) list" where
  "indexed g =
     concat (map (\<lambda>(i, row). map (\<lambda>(j, x). ((i, j), x)) (enumerate 0 row)) (enumerate 0 g))"

text \<open>\<^verbatim>\<open>np.mgrid[0:h, 0:w]\<close>, as the array of the points \<open>(grid_y, grid_x)\<close>.\<close>

definition mgrid :: "nat \<Rightarrow> nat \<Rightarrow> (nat \<times> nat) grid" where
  "mgrid h w = map (\<lambda>i. map (\<lambda>j. (i, j)) [0..<w]) [0..<h]"

subsection \<open>External libraries of the backend\<close>

text \<open>
  Two library functions are parameters of the model. \<open>linear_interpolant points values\<close>
  stands for the piecewise linear interpolant scipy builds on a triangulation of sample
  points that span at least one triangle: the interpolant is undefined (\<open>None\<close>) at a
  point outside the convex hull of the samples. \<open>pil_resize\<close> stands for \<^verbatim>\<open>Image.resize\<close> on an
  8-bit image of mode \<^verbatim>\<open>L\<close>.
\<close>

datatype pil_filter = NEAREST | BOX | BILINEAR | HAMMING | BICUBIC | LANCZOS

record libs =
  linear_interpolant :: "(nat \<times> nat) list \<Rightarrow> fl list \<Rightarrow> py_error + (nat \<times> nat \<Rightarrow> fl option)"
  pil_resize :: "pil_filter \<Rightarrow> nat \<times> nat \<Rightarrow> 8 word grid \<Rightarrow> py_error + 8 word grid"

text \<open>
  Twice the signed area of the triangle \<open>p q r\<close>; the sample points are degenerate when
  no three of them span a triangle, that is when they are fewer than three or all on one
  line.
\<close>

definition cross :: "nat \<times> nat \<Rightarrow> nat \<times> nat \<Rightarrow> nat \<times> nat \<Rightarrow> int" where
  "cross p q r =
     (int (fst q) - int (fst p)) * (int (snd r) - int (snd p))
     - (int (snd q) - int (snd p)) * (int (fst r) - int (fst p))"

definition degenerate :: "(nat \<times> nat) list \<Rightarrow> bool" where
  "degenerate points \<longleftrightarrow>
     list_all (\<lambda>p. list_all (\<lambda>q. list_all (\<lambda>r. cross p q r = 0) points) points) points"

text \<open>
  \<^verbatim>\<open>griddata(points, values, xi, method='linear', fill_value=...)\<close>, as scipy behaves:
  it raises \<^verbatim>\<open>ValueError\<close> when there is no sample point and \<^verbatim>\<open>QhullError\<close> when the
  sample points are degenerate, since no triangulation exists; otherwise it returns the
  interpolant where it is defined and \<^verbatim>\<open>fill_value\<close> elsewhere.
\<close>

definition griddata ::
  "libs \<Rightarrow> (nat \<times> nat) list \<Rightarrow> fl list \<Rightarrow> (nat \<times> nat) grid \<Rightarrow> fl \<Rightarrow> py_error + fl grid" where
  "griddata L points values xi fill_value =
     (if points = [] then Inl ValueError
      else if degenerate points then Inl QhullError
      else case linear_interpolant L points values of
             Inl e \<Rightarrow> Inl e
           | Inr f \<Rightarrow> Inr (map (map (\<lambda>p. case f p of Some v \<Rightarrow> v | None \<Rightarrow> fill_value)) xi))"

subsection \<open>Gap filler of the backend\<close>

text \<open>
  \<^verbatim>\<open>backend/app.py\<close>, \<^verbatim>\<open>process_dem_to_heightmap\<close>: "Fill NaN values with interpolation".
  The cells selected by \<^verbatim>\<open>mask = ~np.isnan(elevation_data)\<close>: their indices are
  \<^verbatim>\<open>np.array(np.nonzero(mask)).T\<close>, their values \<^verbatim>\<open>elevation_data[mask]\<close>.
\<close>

definition known_cells :: "fl grid \<Rightarrow> ((nat \<times> nat) \<times> fl) list" where
  "known_cells elevation_data = filter (\<lambda>(p, v). \<not> isnan v) (indexed elevation_data)"

definition fill_nan :: "libs \<Rightarrow> fl grid \<Rightarrow> py_error + fl grid" where
  "fill_nan L elevation_data =
     (if \<exists>x \<in> set (concat elevation_data). isnan x then
        let coords = map fst (known_cells elevation_data);
            values = map snd (known_cells elevation_data);
            (h, w) = shape elevation_data;
            fill_value = (if length values > 0 then np_nanmean values else Fin 0)
        in griddata L coords values (mgrid h w) fill_value
      else Inr elevation_data)"

subsection \<open>Pipeline of the backend\<close>

text \<open>
  \<^verbatim>\<open>process_dem_to_heightmap(dem_path, resolution)\<close> of \<^verbatim>\<open>backend/app.py\<close>, first from the
  decoded raster to the 16-bit image, then with the file it reads and the file it writes.
  An exception is logged and raised again; the handler turns it into status 500.
\<close>

definition backend_heightmap :: "libs \<Rightarrow> raster \<Rightarrow> nat \<Rightarrow> py_error + 16 word grid" where
  "backend_heightmap L src resolution =
     (case fill_nan L (handle_nodata src) of
        Inl e \<Rightarrow> Inl e
      | Inr elevation_data \<Rightarrow>
          (case normalize_backend elevation_data of
             Inl e \<Rightarrow> Inl e
           | Inr normalized \<Rightarrow>
               (case pil_resize L LANCZOS (resolution, resolution)
                       (map (map quantize_8bit) normalized) of
                  Inl e \<Rightarrow> Inl e
                | Inr resized \<Rightarrow> Inr (map (map to_16bit) resized))))"

text \<open>\<^verbatim>\<open>s.replace(old, new)\<close> for a non-empty \<open>old\<close> (the pipeline replaces \<^verbatim>\<open>'.tif'\<close>).\<close>

function str_replace :: "string \<Rightarrow> string \<Rightarrow> string \<Rightarrow> string" where
  "str_replace old new s =
     (if old = [] \<or> s = [] then s
      else if take (length old) s = old then new @ str_replace old new (drop (length old) s)
      else hd s # str_replace old new (tl s))"
  by pat_completeness auto
termination
  by (relation "measure (\<lambda>(old, new, s). length s)") (auto simp: Suc_le_eq)

declare str_replace.simps [simp del]

definition process_dem_to_heightmap ::
  "libs \<Rightarrow> string \<Rightarrow> nat \<Rightarrow> world \<Rightarrow> world \<times> (py_error + string)" where
  "process_dem_to_heightmap L dem_path resolution w =
     (let w1 = w\<lparr>fs_log := fs_log w @ [Open_raster dem_path]\<rparr>
      in case files w dem_path of
           Some (Tiff src) \<Rightarrow>
             (case backend_heightmap L src resolution of
                Inl e \<Rightarrow> (w1, Inl e)
              | Inr image_16bit \<Rightarrow>
                  let output_path = str_replace ''.tif'' ''_heightmap.png'' dem_path
                  in (w1\<lparr>files := (files w1)(output_path \<mapsto> Png16 image_16bit),
                          fs_log := fs_log w1 @ [Write_file output_path]\<rparr>,
                      Inr output_path))
         | _ \<Rightarrow> (w1, Inl RasterioIOError))"

subsection \<open>\<^verbatim>\<open>/api/process-dem\<close>\<close>

definition supported_resolutions :: "int list" where
  "supported_resolutions = [129, 257, 513, 1025, 2049, 4097]"

definition process_dem :: "libs \<Rightarrow> request \<Rightarrow> world \<Rightarrow> world \<times> response" where
  "process_dem L req w =
     (let file_id = (case req_file_id req of None \<Rightarrow> [] | Some f \<Rightarrow> f);
          resolution = (case req_resolution req of None \<Rightarrow> 513 | Some r \<Rightarrow> r)
      in if file_id = [] then (w, Error_response 400 (Msg ''file_id is required''))
         else if resolution \<notin> set supported_resolutions
         then (w, Error_response 400 (Msg ''Invalid resolution. Must be 2^n + 1''))
         else
           let dem_path = path_join UPLOAD_FOLDER (dem_tif file_id);
               (ex, w1) = os_path_exists dem_path w
           in if \<not> ex then (w1, Error_response 404 (Msg_for ''DEM file not found: '' file_id))
              else
                (case process_dem_to_heightmap L dem_path (nat resolution) w1 of
                   (w2, Inl e) \<Rightarrow> (w2, Error_response 500 (Exc e))
                 | (w2, Inr heightmap_path) \<Rightarrow>
                     (w2\<lparr>fs_log := fs_log w2 @ [Read_file heightmap_path]\<rparr>,
                      Send_file heightmap_path (''heightmap_'' @ file_id @ ''.png''))))"

subsection \<open>Resampler of the scripts\<close>

text \<open>
  \<^verbatim>\<open>scipy.ndimage.zoom(input, zoom, order=1)\<close> with the default \<^verbatim>\<open>grid_mode=False\<close>, by its
  documented behaviour. Along an axis of \<open>n\<close> input and \<open>m\<close> output samples, where
  \<open>m = round(n * zoom)\<close>, output index \<open>i\<close> reads the input at coordinate
  \<open>i * (n - 1) / (m - 1)\<close> (at \<open>i\<close> itself when \<open>m = 1\<close>), and order 1 interpolates
  linearly between the two samples around the coordinate. At the last sample the second
  weight is zero. The zoom factors, the coordinates and the weighted sums are exact in
  the model. A zero-size output is an empty array. A zero-size input is not covered: the
  scripts do not reach it, since \<^verbatim>\<open>np.min\<close> raises on an empty band before.
\<close>

definition zoom_scale :: "nat \<Rightarrow> nat \<Rightarrow> real" where
  "zoom_scale n m = (if 1 < m then (real n - 1) / (real m - 1) else 1)"

definition zoom_cell :: "fl grid \<Rightarrow> real \<Rightarrow> real \<Rightarrow> fl" where
  "zoom_cell g y x =
     (let (h, w) = shape g;
          i0 = nat \<lfloor>y\<rfloor>; i1 = min (i0 + 1) (h - 1); ty = y - of_int \<lfloor>y\<rfloor>;
          j0 = nat \<lfloor>x\<rfloor>; j1 = min (j0 + 1) (w - 1); tx = x - of_int \<lfloor>x\<rfloor>
      in lib_add
           (lib_add (lib_mul (Fin ((1 - ty) * (1 - tx))) (g ! i0 ! j0))
                    (lib_mul (Fin ((1 - ty) * tx)) (g ! i0 ! j1)))
           (lib_add (lib_mul (Fin (ty * (1 - tx))) (g ! i1 ! j0))
                    (lib_mul (Fin (ty * tx)) (g ! i1 ! j1))))"

definition ndimage_zoom :: "real \<times> real \<Rightarrow> fl grid \<Rightarrow> py_error + fl grid" where
  "ndimage_zoom zoom input =
     (let (h, w) = shape input;
          oh = py_round (real h * fst zoom);
          ow = py_round (real w * snd zoom)
      in if h = 0 \<or> w = 0 then Inl LibraryError
         else Inr (map (\<lambda>i. map (\<lambda>j. zoom_cell input (real i * zoom_scale h (nat oh))
                                                      (real j * zoom_scale w (nat ow)))
                                 [0..<nat ow])
                       [0..<nat oh]))"

text \<open>
  "Resize to target resolution" of the three script functions:
  \<^verbatim>\<open>zoom_factor = (resolution / shape[0], resolution / shape[1])\<close>. The two quotients are
  kept exact: \<^verbatim>\<open>zoom\<close> uses them for the size of its output only.
\<close>

definition resize_to_resolution :: "nat \<Rightarrow> fl grid \<Rightarrow> py_error + fl grid" where
  "resize_to_resolution resolution normalized =
     (let (h, w) = shape normalized
      in if h = 0 \<or> w = 0 then Inl ZeroDivisionError
         else ndimage_zoom (real resolution / real h, real resolution / real w) normalized)"

subsection \<open>Pipelines of the scripts\<close>

text \<open>\<^verbatim>\<open>dem_processor.py\<close> and \<^verbatim>\<open>process_dem_with_gdal\<close>: from the band to the heightmap.\<close>

definition gdal_heightmap :: "raster \<Rightarrow> nat \<Rightarrow> py_error + 16 word grid" where
  "gdal_heightmap dataset resolution =
     (case normalize_gdal (band1 dataset) of
        Inl e \<Rightarrow> Inl e
      | Inr normalized \<Rightarrow>
          (case resize_to_resolution resolution normalized of
             Inl e \<Rightarrow> Inl e
           | Inr resized \<Rightarrow> Inr (map (map quantize_16bit) resized)))"

text \<open>\<^verbatim>\<open>process_dem_with_rasterio\<close>: from the dataset to the heightmap.\<close>

definition rasterio_heightmap :: "raster \<Rightarrow> nat \<Rightarrow> py_error + 16 word grid" where
  "rasterio_heightmap dataset resolution =
     (case normalize_rasterio (handle_nodata dataset) of
        Inl e \<Rightarrow> Inl e
      | Inr normalized \<Rightarrow>
          (case resize_to_resolution resolution normalized of
             Inl e \<Rightarrow> Inl e
           | Inr resized \<Rightarrow> Inr (map (map quantize_16bit) resized)))"

text \<open>\<^verbatim>\<open>os.path.dirname\<close> on a POSIX system.\<close>

definition os_path_dirname :: "string \<Rightarrow> string" where
  "os_path_dirname p =
     (let head = rev (dropWhile (\<lambda>c. c \<noteq> CHR ''/'') (rev p))
      in if head \<noteq> [] \<and> (\<exists>c \<in> set head. c \<noteq> CHR ''/'')
         then rev (dropWhile (\<lambda>c. c = CHR ''/'') (rev head))
         else head)"

datatype failure = SystemExit nat | Raised py_error

text \<open>
  \<^verbatim>\<open>dem_processor.py\<close>, \<^verbatim>\<open>process_dem_to_heightmap(dem_path, output_path, resolution)\<close>,
  named after its module since the backend has a function of the same name.
  \<^verbatim>\<open>gdal.Open\<close> returns \<^verbatim>\<open>None\<close> for a file it cannot read, and the script exits with
  status 1; \<^verbatim>\<open>os.makedirs\<close> raises on an empty directory name.
\<close>

definition dem_processor ::
  "string \<Rightarrow> string \<Rightarrow> nat \<Rightarrow> world \<Rightarrow> world \<times> (failure + string)" where
  "dem_processor dem_path output_path resolution w =
     (let w1 = w\<lparr>fs_log := fs_log w @ [Open_raster dem_path]\<rparr>
      in case files w dem_path of
           Some (Tiff dataset) \<Rightarrow>
             (case gdal_heightmap dataset resolution of
                Inl e \<Rightarrow> (w1, Inl (Raised e))
              | Inr heightmap \<Rightarrow>
                  let dir = os_path_dirname output_path;
                      w2 = w1\<lparr>fs_log := fs_log w1 @ [Makedirs dir]\<rparr>
                  in if dir = [] then (w2, Inl (Raised FileNotFoundError))
                     else (w2\<lparr>files := (files w2)(output_path \<mapsto> Png16 heightmap),
                               fs_log := fs_log w2 @ [Write_file output_path]\<rparr>,
                           Inr output_path))
         | _ \<Rightarrow> (w1, Inl (SystemExit 1)))"

text \<open>
  Bilinear interpolation of a grid of reals at the fractional position \<open>(y, x)\<close>: the
  weighted mean of the four cells around it, the statement the resize step is compared
  with.
\<close>

definition bilinear :: "real grid \<Rightarrow> real \<Rightarrow> real \<Rightarrow> real" where
  "bilinear g y x =
     (let i0 = nat \<lfloor>y\<rfloor>; i1 = min (i0 + 1) (length g - 1); ty = y - of_int \<lfloor>y\<rfloor>;
          j0 = nat \<lfloor>x\<rfloor>; j1 = min (j0 + 1) (length (hd g) - 1); tx = x - of_int \<lfloor>x\<rfloor>
      in (1 - ty) * (1 - tx) * (g ! i0 ! j0) + (1 - ty) * tx * (g ! i0 ! j1)
         + ty * (1 - tx) * (g ! i1 ! j0) + ty * tx * (g ! i1 ! j1))"

text \<open>
  The resampler as the specification words it: bilinear interpolation at the source
  coordinates \<open>(i * H / T, j * W / T)\<close>, clamped to the valid index range.
\<close>

definition spec_resample :: "nat \<Rightarrow> real grid \<Rightarrow> real grid" where
  "spec_resample T g =
     (let h = length g; w = length (hd g)
      in map (\<lambda>i. map (\<lambda>j. bilinear g (min (real i * real h / real T) (real h - 1))
                                       (min (real j * real w / real T) (real w - 1)))
                        [0..<T])
             [0..<T])"

subsection \<open>A stand-in for the libraries\<close>

text \<open>
  To run the model on concrete inputs the two library parameters need values. The
  stand-in interpolant covers three sample points: it is the linear interpolant on their
  triangle, the border included, and undefined outside; on more sample points it gives
  up. The stand-in resize repeats the nearest pixel whatever the filter, and is not meant
  as a description of PIL.
\<close>

definition triangle_interpolant ::
  "(nat \<times> nat) list \<Rightarrow> fl list \<Rightarrow> py_error + (nat \<times> nat \<Rightarrow> fl option)" where
  "triangle_interpolant points values =
     (case (points, values) of
        ([a, b, c], [va, vb, vc]) \<Rightarrow>
          Inr (\<lambda>p. let d = real_of_int (cross a b c);
                       la = real_of_int (cross p b c) / d;
                       lb = real_of_int (cross a p c) / d;
                       lc = real_of_int (cross a b p) / d
                   in if 0 \<le> la \<and> 0 \<le> lb \<and> 0 \<le> lc
                      then Some (lib_add (lib_add (lib_mul (Fin la) va) (lib_mul (Fin lb) vb))
                                   (lib_mul (Fin lc) vc))
                      else None)
      | _ \<Rightarrow> Inl LibraryError)"

definition nearest_resize :: "nat \<times> nat \<Rightarrow> 8 word grid \<Rightarrow> py_error + 8 word grid" where
  "nearest_resize new_size img =
     (let (h, w) = shape img
      in if h = 0 \<or> w = 0 then Inl ValueError
         else Inr (map (\<lambda>i. map (\<lambda>j. img ! (i * h div snd new_size) ! (j * w div fst new_size))
                                 [0..<fst new_size])
                       [0..<snd new_size]))"

definition sample_libs :: libs where
  "sample_libs =
     \<lparr>linear_interpolant = triangle_interpolant,
      pil_resize = (\<lambda>filter. nearest_resize)\<rparr>"

text \<open>
  A library that offers the bilinear filter only, to observe which filter a caller asks
  for.
\<close>

definition bilinear_only_libs :: libs where
  "bilinear_only_libs =
     \<lparr>linear_interpolant = linear_interpolant sample_libs,
      pil_resize = (\<lambda>filter new_size img.
         if filter = BILINEAR then nearest_resize new_size img else Inl LibraryError)\<rparr>"


definition double_scale :: "real \<Rightarrow> real \<Rightarrow> real \<Rightarrow> real" where
  "double_scale lo hi x = (if lo < hi then rd (rd (x - lo) / rd (hi - lo)) else 0)"



section \<open>Properties\<close>

subsection \<open>Rounding to a double\<close>


lemma py_round_of_int: "py_round (of_int z) = z"
  by (simp add: py_round_def)

lemma py_round_bounds: "of_int (py_round x) \<le> x + 1 / 2" "x - 1 / 2 \<le> of_int (py_round x)"
  unfolding py_round_def Let_def by (auto; linarith)+

lemma py_round_mono:
  assumes "x \<le> y" shows "py_round x \<le> py_round y"
proof (cases "\<lfloor>x\<rfloor> = \<lfloor>y\<rfloor>")
  case True
  then show ?thesis
    using assms unfolding py_round_def Let_def by auto
next
  case False
  then have "\<lfloor>x\<rfloor> + 1 \<le> \<lfloor>y\<rfloor>"
    using assms floor_mono [OF assms] by linarith
  moreover have "py_round x \<le> \<lfloor>x\<rfloor> + 1"
    unfolding py_round_def Let_def by auto
  moreover have "\<lfloor>y\<rfloor> \<le> py_round y"
    unfolding py_round_def Let_def by auto
  ultimately show ?thesis by linarith
qed

lemma py_round_ge_int: "of_int z \<le> x \<Longrightarrow> z \<le> py_round x"
  using py_round_mono [of "of_int z" x] by (simp add: py_round_of_int)

lemma py_round_le_int: "x \<le> of_int z \<Longrightarrow> py_round x \<le> z"
  using py_round_mono [of x "of_int z"] by (simp add: py_round_of_int)

lemma bits_spec: "0 < n \<Longrightarrow> 2 ^ bits n \<le> n \<and> n < 2 ^ Suc (bits n)"
proof (induction n rule: bits.induct)
  case (1 n)
  show ?case
  proof (cases "n < 2")
    case True
    with "1.prems" have "n = 1" by simp
    then show ?thesis by (simp add: bits.simps)
  next
    case False
    then have "0 < n div 2" by simp
    from "1.IH" [OF False this]
    have "2 ^ bits (n div 2) \<le> n div 2" "n div 2 < 2 ^ Suc (bits (n div 2))" by simp_all
    then have "2 * 2 ^ bits (n div 2) \<le> n" "n < 2 * 2 ^ Suc (bits (n div 2))" by linarith+
    then show ?thesis using False by (simp add: bits.simps [of n])
  qed
qed

lemma pow2_less_D: "(2::nat) ^ a < 2 ^ Suc b \<Longrightarrow> a \<le> b"
  by (metis less_Suc_eq_le power_strict_increasing_iff one_less_numeral_iff semiring_norm(76))

lemma bits_unique:
  assumes "2 ^ k \<le> n" "n < 2 ^ Suc k"
  shows "bits n = k"
proof -
  have n: "0 < n" using assms(1) by (metis less_le_trans zero_less_numeral zero_less_power)
  from bits_spec [OF n] have b: "2 ^ bits n \<le> n" "n < 2 ^ Suc (bits n)" by simp_all
  have "(2::nat) ^ k < 2 ^ Suc (bits n)" using assms(1) b(2) by (rule le_less_trans)
  then have "k \<le> bits n" by (rule pow2_less_D)
  moreover have "(2::nat) ^ bits n < 2 ^ Suc k" using b(1) assms(2) by (rule le_less_trans)
  then have "bits n \<le> k" by (rule pow2_less_D)
  ultimately show ?thesis by linarith
qed

lemma bits_mono: "m \<le> n \<Longrightarrow> bits m \<le> bits n"
proof (cases "m = 0")
  case True
  then show ?thesis by (simp add: bits.simps [of 0])
next
  case False
  assume mn: "m \<le> n"
  then have m: "0 < m" and n: "0 < n" using False by simp_all
  have "(2::nat) ^ bits m \<le> m" using bits_spec [OF m] by simp
  also have "m \<le> n" by fact
  also have "n < 2 ^ Suc (bits n)" using bits_spec [OF n] by simp
  finally show ?thesis by (rule pow2_less_D)
qed

lemma two_1022_pos [simp]: "0 < two_1022"
  by (simp add: two_1022_def)

lemma two_1022_nonneg [simp]: "0 \<le> two_1022"
  by (simp add: two_1022_def)

lemma two_1074_pos [simp]: "0 < two_1074"
  by (simp add: two_1074_def)

lemma two_1074_nonneg [simp]: "0 \<le> two_1074"
  by (simp add: two_1074_def)

lemma two_1022_neq0 [simp]: "two_1022 \<noteq> 0"
  by (simp add: two_1022_def)

lemma two_1074_neq0 [simp]: "two_1074 \<noteq> 0"
  by (simp add: two_1074_def)

lemma scale_1074: "two_1074 = two_1022 * 2 ^ 52"
  unfolding two_1022_def two_1074_def by (simp only: power_add [symmetric]) simp

lemma ulp_pos [simp]: "0 < ulp x"
  by (simp add: ulp_def)

lemma ulp_nonneg [simp]: "0 \<le> ulp x"
  using ulp_pos [of x] by (rule less_imp_le)


lemma ulp_expo: "ulp x = 2 ^ expo x / two_1074"
  by (simp add: ulp_def)

lemma expo_upper: "\<bar>x\<bar> * two_1022 < 2 ^ Suc (expo x)"
proof -
  let ?b = "\<bar>x\<bar> * two_1022" and ?N = "nat \<lfloor>\<bar>x\<bar> * two_1022\<rfloor>"
  have N: "?N < 2 ^ Suc (bits ?N)"
  proof (cases "?N = 0")
    case True then show ?thesis by simp
  next
    case False then show ?thesis using bits_spec [of ?N] by simp
  qed
  then have "Suc ?N \<le> 2 ^ Suc (bits ?N)" by simp
  then have "real (Suc ?N) \<le> real (2 ^ Suc (bits ?N))"
    by (simp only: of_nat_le_iff)
  then have le: "real ?N + 1 \<le> 2 ^ Suc (bits ?N)" by simp
  have "0 \<le> ?b" by simp
  then have "real ?N = of_int \<lfloor>?b\<rfloor>" by simp
  moreover have "?b < of_int \<lfloor>?b\<rfloor> + 1" by linarith
  ultimately have "?b < real ?N + 1" by simp
  with le show ?thesis unfolding expo_def by linarith
qed

lemma expo_lower: "1 \<le> \<bar>x\<bar> * two_1022 \<Longrightarrow> 2 ^ expo x \<le> \<bar>x\<bar> * two_1022"
proof -
  let ?b = "\<bar>x\<bar> * two_1022" and ?N = "nat \<lfloor>\<bar>x\<bar> * two_1022\<rfloor>"
  assume "1 \<le> ?b"
  then have "1 \<le> \<lfloor>?b\<rfloor>" by (simp add: le_floor_iff)
  then have N: "0 < ?N" by simp
  have "2 ^ bits ?N \<le> ?N" using bits_spec [OF N] by simp
  then have "real (2 ^ bits ?N) \<le> real ?N" by (simp only: of_nat_le_iff)
  then have "2 ^ bits ?N \<le> real ?N" by simp
  moreover have "real ?N = of_int \<lfloor>?b\<rfloor>" using \<open>1 \<le> \<lfloor>?b\<rfloor>\<close> by simp
  moreover have "of_int \<lfloor>?b\<rfloor> \<le> ?b" by (rule of_int_floor_le)
  ultimately show ?thesis unfolding expo_def by linarith
qed

lemma expo_pos_normal: "0 < expo x \<Longrightarrow> 1 \<le> \<bar>x\<bar> * two_1022"
proof -
  assume "0 < expo x"
  then have "\<not> nat \<lfloor>\<bar>x\<bar> * two_1022\<rfloor> < 2"
    unfolding expo_def by (subst (asm) bits.simps) (simp split: if_splits)
  then have "2 \<le> \<lfloor>\<bar>x\<bar> * two_1022\<rfloor>" by linarith
  then show ?thesis by (simp add: le_floor_iff)
qed

lemma expo_unique:
  assumes "2 ^ k \<le> \<bar>x\<bar> * two_1022" "\<bar>x\<bar> * two_1022 < 2 ^ Suc k"
  shows "expo x = k"
proof -
  let ?b = "\<bar>x\<bar> * two_1022"
  have "of_int (2 ^ k) \<le> ?b" using assms(1) by simp
  then have "(2::int) ^ k \<le> \<lfloor>?b\<rfloor>" by (simp only: le_floor_iff)
  then have "nat (2 ^ k) \<le> nat \<lfloor>?b\<rfloor>" by (rule nat_mono)
  then have lo: "2 ^ k \<le> nat \<lfloor>?b\<rfloor>" by (simp add: nat_power_eq)
  have "?b < of_int (2 ^ Suc k)" using assms(2) by simp
  then have "\<lfloor>?b\<rfloor> < 2 ^ Suc k" by (simp only: floor_less_iff)
  then have "\<lfloor>?b\<rfloor> < int (2 ^ Suc k)" by simp
  moreover have "0 \<le> \<lfloor>?b\<rfloor>" by simp
  ultimately have hi: "nat \<lfloor>?b\<rfloor> < 2 ^ Suc k" by (simp only: nat_less_iff)
  show ?thesis unfolding expo_def using lo hi by (rule bits_unique)
qed

lemma expo_subnormal: "\<bar>x\<bar> * two_1022 < 1 \<Longrightarrow> expo x = 0"
proof -
  assume "\<bar>x\<bar> * two_1022 < 1"
  then have "\<lfloor>\<bar>x\<bar> * two_1022\<rfloor> \<le> 0" by (simp add: floor_le_iff)
  then have "nat \<lfloor>\<bar>x\<bar> * two_1022\<rfloor> = 0" by simp
  then show ?thesis by (simp add: expo_def bits.simps [of 0])
qed

lemma expo_mono: "\<bar>x\<bar> \<le> \<bar>y\<bar> \<Longrightarrow> expo x \<le> expo y"
proof -
  assume "\<bar>x\<bar> \<le> \<bar>y\<bar>"
  then have "\<bar>x\<bar> * two_1022 \<le> \<bar>y\<bar> * two_1022"
    by (simp add: mult_right_mono)
  then have "nat \<lfloor>\<bar>x\<bar> * two_1022\<rfloor> \<le> nat \<lfloor>\<bar>y\<bar> * two_1022\<rfloor>"
    by (intro nat_mono floor_mono)
  then show ?thesis unfolding expo_def by (rule bits_mono)
qed

text \<open>The significand \<open>x / ulp x\<close> is below \<open>2 ^ 53\<close>, and at least \<open>2 ^ 52\<close> for a normal \<open>x\<close>.\<close>

lemma significand_upper: "\<bar>x\<bar> / ulp x < 2 ^ 53"
proof -
  have "\<bar>x\<bar> * two_1022 < 2 * 2 ^ expo x" using expo_upper [of x] by simp
  then have "(\<bar>x\<bar> * two_1022) * 2 ^ 52 < (2 * 2 ^ expo x) * 2 ^ 52"
    by (simp only: mult_less_cancel_right_pos zero_less_power zero_less_numeral)
  then have "\<bar>x\<bar> * (two_1022 * 2 ^ 52) < 2 ^ 53 * 2 ^ expo x" by (simp add: mult.assoc)
  then have "\<bar>x\<bar> * two_1074 < 2 ^ 53 * 2 ^ expo x" by (simp only: scale_1074)
  then show ?thesis
    by (simp add: ulp_expo field_simps)
qed

lemma significand_lower: "1 \<le> \<bar>x\<bar> * two_1022 \<Longrightarrow> 2 ^ 52 \<le> \<bar>x\<bar> / ulp x"
proof -
  assume "1 \<le> \<bar>x\<bar> * two_1022"
  then have "2 ^ expo x \<le> \<bar>x\<bar> * two_1022" by (rule expo_lower)
  then have "2 ^ 52 * 2 ^ expo x \<le> \<bar>x\<bar> * (two_1022 * 2 ^ 52)" by simp
  then have "2 ^ 52 * 2 ^ expo x \<le> \<bar>x\<bar> * two_1074" by (simp only: scale_1074)
  then show ?thesis
    by (simp add: ulp_expo field_simps)
qed

lemma rd_0 [simp]: "rd 0 = 0"
  by (simp add: rd_def py_round_def)

lemma rd_nonneg: "0 \<le> x \<Longrightarrow> 0 \<le> rd x"
proof -
  assume "0 \<le> x"
  then have "of_int 0 \<le> x / ulp x" by simp
  then have "0 \<le> py_round (x / ulp x)" by (rule py_round_ge_int)
  then show ?thesis by (simp add: rd_def)
qed

lemma rd_upper: "0 \<le> x \<Longrightarrow> rd x \<le> 2 ^ 53 * ulp x"
proof -
  assume "0 \<le> x"
  then have "x / ulp x \<le> of_int (2 ^ 53)" using significand_upper [of x] by simp
  then have "py_round (x / ulp x) \<le> 2 ^ 53" by (rule py_round_le_int)
  then have "real_of_int (py_round (x / ulp x)) \<le> 2 ^ 53"
    by (metis of_int_le_iff of_int_numeral of_int_power)
  then show ?thesis unfolding rd_def by (rule mult_right_mono) simp
qed

lemma rd_lower: "0 \<le> x \<Longrightarrow> 1 \<le> x * two_1022 \<Longrightarrow> 2 ^ 52 * ulp x \<le> rd x"
proof -
  assume "0 \<le> x" "1 \<le> x * two_1022"
  then have "of_int (2 ^ 52) \<le> x / ulp x" using significand_lower [of x] by simp
  then have "2 ^ 52 \<le> py_round (x / ulp x)" by (rule py_round_ge_int)
  then have "2 ^ 52 \<le> real_of_int (py_round (x / ulp x))"
    by (metis of_int_le_iff of_int_numeral of_int_power)
  then show ?thesis unfolding rd_def by (rule mult_right_mono) simp
qed

lemma rd_mono:
  assumes "0 \<le> x" "x \<le> y"
  shows "rd x \<le> rd y"
proof (cases "expo x = expo y")
  case True
  then have u: "ulp x = ulp y" by (simp add: ulp_expo)
  have "x / ulp y \<le> y / ulp y" using assms by (simp add: divide_right_mono)
  then have "py_round (x / ulp y) \<le> py_round (y / ulp y)" by (rule py_round_mono)
  then show ?thesis unfolding rd_def u by (simp add: mult_right_mono)
next
  case False
  have y: "0 \<le> y" using assms by simp
  have "expo x \<le> expo y" using assms by (intro expo_mono) simp
  with False have lt: "Suc (expo x) \<le> expo y" by simp
  then have "0 < expo y" by simp
  then have "1 \<le> \<bar>y\<bar> * two_1022" by (rule expo_pos_normal)
  then have normal: "1 \<le> y * two_1022" using y by simp
  have "(2::real) ^ Suc (expo x) \<le> 2 ^ expo y" using lt by (intro power_increasing) simp_all
  then have "(2 * 2 ^ expo x) / two_1074 \<le> 2 ^ expo y / two_1074"
    by (intro divide_right_mono) simp_all
  then have "2 * ulp x \<le> ulp y"
    by (simp only: ulp_expo times_divide_eq_right)
  then have "2 ^ 53 * ulp x \<le> 2 ^ 52 * ulp y" by simp
  with rd_upper [OF assms(1)] rd_lower [OF y normal] show ?thesis by linarith
qed


lemma ulp_by_expo:
  assumes "expo x = k" and "(2::real) ^ k * 2 ^ b = 2 ^ a * two_1074"
  shows "ulp x = 2 ^ a / 2 ^ b"
proof -
  have "ulp x = 2 ^ k / two_1074" by (simp only: ulp_expo assms(1))
  also have "\<dots> = 2 ^ a / 2 ^ b"
    using assms(2) by (simp add: field_simps del: power_Suc)
  finally show ?thesis .
qed

lemma rd_at:
  assumes lo: "2 ^ 52 * 2 ^ a \<le> \<bar>x\<bar> * 2 ^ b" and hi: "\<bar>x\<bar> * 2 ^ b < 2 ^ 53 * 2 ^ a"
    and b: "b \<le> a + 1074"
  shows "rd x = of_int (py_round (x * 2 ^ b / 2 ^ a)) * 2 ^ a / 2 ^ b"
proof -
  define k where "k = a + 1074 - b"
  have kb: "k + b = a + 1074" using b by (simp add: k_def)
  have pw: "(2::real) ^ k * 2 ^ b = 2 ^ a * two_1074"
    unfolding two_1074_def by (simp only: power_add [symmetric] kb)
  have pw': "(2::real) ^ k * 2 ^ b = 2 ^ a * (2 ^ 52 * two_1022)"
    using pw scale_1074 by (simp only: mult.commute [of "2 ^ 52" two_1022])
  have "2 ^ k * 2 ^ b \<le> (\<bar>x\<bar> * two_1022) * 2 ^ b"
  proof -
    have "(2 ^ 52 * 2 ^ a) * two_1022 \<le> (\<bar>x\<bar> * 2 ^ b) * two_1022"
      using lo by (rule mult_right_mono) simp
    then show ?thesis by (simp only: pw') (simp add: mult_ac)
  qed
  then have lo': "2 ^ k \<le> \<bar>x\<bar> * two_1022"
    by (simp only: mult_le_cancel_right_pos zero_less_power zero_less_numeral)
  have "(\<bar>x\<bar> * two_1022) * 2 ^ b < 2 ^ Suc k * 2 ^ b"
  proof -
    have "(\<bar>x\<bar> * 2 ^ b) * two_1022 < (2 ^ 53 * 2 ^ a) * two_1022"
      using hi by (simp only: mult_less_cancel_right_pos two_1022_pos)
    moreover have "(2::real) ^ Suc k * 2 ^ b = 2 * (2 ^ k * 2 ^ b)" by simp
    ultimately show ?thesis by (simp only: pw') (simp add: mult_ac)
  qed
  then have hi': "\<bar>x\<bar> * two_1022 < 2 ^ Suc k"
    by (simp only: mult_less_cancel_right_pos zero_less_power zero_less_numeral)
  have "expo x = k" using lo' hi' by (rule expo_unique)
  then have u: "ulp x = 2 ^ a / 2 ^ b" using pw by (rule ulp_by_expo)
  show ?thesis unfolding rd_def u by simp
qed

lemma py_round_minus: "py_round (- x) = - py_round x"
proof (cases "x = of_int \<lfloor>x\<rfloor>")
  case True
  then obtain z where "x = of_int z" by metis
  then show ?thesis
    using py_round_of_int [of z] py_round_of_int [of "- z"] by simp
next
  case False
  then have c: "\<lceil>x\<rceil> = \<lfloor>x\<rfloor> + 1"
    by (metis ceiling_altdef)
  have fl: "\<lfloor>- x\<rfloor> = - \<lfloor>x\<rfloor> - 1"
    using c by (simp add: ceiling_def)
  have "even (- \<lfloor>x\<rfloor> - 1) \<longleftrightarrow> odd \<lfloor>x\<rfloor>" by simp
  then show ?thesis
    unfolding py_round_def Let_def fl by (auto; linarith?)
qed

lemma ulp_minus [simp]: "ulp (- x) = ulp x"
  by (simp add: ulp_def expo_def)

lemma rd_minus: "rd (- x) = - rd x"
  by (simp add: rd_def py_round_minus)

lemma rd_of_nat:
  assumes "n < 2 ^ 53"
  shows "rd (real n) = real n"
proof (cases "n = 0")
  case True
  then show ?thesis by simp
next
  case False
  then have n: "0 < n" by simp
  define j where "j = bits n"
  have lo: "2 ^ j \<le> n" and hi: "n < 2 ^ Suc j"
    using bits_spec [OF n] by (simp_all add: j_def)
  have "(2::nat) ^ j < 2 ^ Suc 52" using lo assms by simp
  then have j: "j \<le> 52" by (rule pow2_less_D)
  define b where "b = 52 - j"
  have jb: "j + b = 52" using j by (simp add: b_def)
  have p52: "(2::real) ^ j * 2 ^ b = 2 ^ 52"
    by (simp only: power_add [symmetric] jb)
  have "real (2 ^ j) \<le> real n" using lo by (simp only: of_nat_le_iff)
  then have "2 ^ j * 2 ^ b \<le> real n * 2 ^ b" by (simp add: mult_right_mono)
  then have c1: "2 ^ 52 * 2 ^ 0 \<le> \<bar>real n\<bar> * 2 ^ b" by (simp add: p52)
  have "real n < real (2 ^ Suc j)" using hi by (simp only: of_nat_less_iff)
  then have "real n * 2 ^ b < (2 * 2 ^ j) * 2 ^ b" by simp
  also have "\<dots> = 2 * 2 ^ 52" by (simp only: mult.assoc p52)
  finally have c2: "\<bar>real n\<bar> * 2 ^ b < 2 ^ 53 * 2 ^ 0" by simp
  have c3: "b \<le> 0 + 1074" by (simp add: b_def)
  have "real n * 2 ^ b = of_int (int (n * 2 ^ b))" by simp
  then have "py_round (real n * 2 ^ b / 2 ^ 0) = int (n * 2 ^ b)"
    using py_round_of_int [of "int (n * 2 ^ b)"] by simp
  then show ?thesis
    by (simp add: rd_at [OF c1 c2 c3])
qed

lemma rd_numeral [simp]: "numeral w < (2::nat) ^ 53 \<Longrightarrow> rd (numeral w) = numeral w"
  using rd_of_nat [of "numeral w"] by simp

lemma rd_1 [simp]: "rd 1 = 1"
  using rd_of_nat [of 1] by simp

lemma rd_neg_numeral [simp]: "numeral w < (2::nat) ^ 53 \<Longrightarrow> rd (- numeral w) = - numeral w"
  by (simp add: rd_minus)

lemma rd_grid: "\<exists>m::int. rd x * two_1074 = of_int m"
proof -
  have "ulp x * two_1074 = 2 ^ expo x"
    by (simp add: ulp_expo)
  then have "rd x * two_1074 = of_int (py_round (x / ulp x)) * 2 ^ expo x"
    by (simp only: rd_def mult.assoc)
  then have "rd x * two_1074 = of_int (py_round (x / ulp x) * 2 ^ expo x)" by simp
  then show ?thesis ..
qed

lemma rd_smallest: "rd (1 / two_1074) = 1 / two_1074"
proof -
  have "\<bar>1 / two_1074\<bar> * two_1022 = two_1022 / two_1074"
    by simp
  also have "\<dots> = two_1022 / (two_1022 * 2 ^ 52)"
    by (simp only: scale_1074)
  also have "\<dots> = 1 / 2 ^ 52" by simp
  finally have eq: "\<bar>1 / two_1074\<bar> * two_1022 = 1 / 2 ^ 52" .
  have "\<bar>1 / two_1074\<bar> * two_1022 < 1" by (simp only: eq) simp
  then have "expo (1 / two_1074) = 0" by (rule expo_subnormal)
  then have "ulp (1 / two_1074) = 1 / two_1074"
    by (simp add: ulp_expo)
  then show ?thesis
    by (simp add: rd_def py_round_def)
qed

lemma rd_diff_pos:
  assumes "rd lo = lo" "rd hi = hi" "lo < hi"
  shows "0 < rd (hi - lo)"
proof -
  obtain ml :: int where ml: "lo * two_1074 = of_int ml"
    using rd_grid [of lo] assms(1) by auto
  obtain mh :: int where mh: "hi * two_1074 = of_int mh"
    using rd_grid [of hi] assms(2) by auto
  have "lo * two_1074 < hi * two_1074" using assms(3) by simp
  then have "ml < mh" by (simp only: ml mh of_int_less_iff)
  then have "1 \<le> mh - ml" by simp
  then have "(1::real) \<le> of_int (mh - ml)" by (simp only: of_int_1_le_iff)
  also have "of_int (mh - ml) = (hi - lo) * two_1074"
    by (simp add: ml [symmetric] mh [symmetric] algebra_simps)
  finally have "1 / two_1074 \<le> hi - lo"
    by (simp add: pos_divide_le_eq)
  moreover have "0 \<le> 1 / two_1074" by simp
  ultimately have "rd (1 / two_1074) \<le> rd (hi - lo)"
    by (rule rd_mono [rotated])
  moreover have "0 < 1 / two_1074" by simp
  ultimately show ?thesis by (simp only: rd_smallest)
qed

subsection \<open>Cleanup\<close>

lemma cleanup_loop_files:
  "files (fst (cleanup_loop ps w acc)) p =
     (if p \<in> path_join UPLOAD_FOLDER ` set ps then None else files w p)"
proof (induction ps arbitrary: w acc p)
  case Nil
  show ?case by simp
next
  case (Cons q ps)
  show ?case
    by (simp add: Let_def os_path_exists_def os_remove_def Cons.IH)
qed

lemma cleanup_loop_nothing:
  "\<forall>p \<in> set ps. files w (path_join UPLOAD_FOLDER p) = None \<Longrightarrow>
     snd (cleanup_loop ps w acc) = acc"
proof (induction ps arbitrary: w acc)
  case Nil
  show ?case by simp
next
  case (Cons q ps)
  have "\<forall>p \<in> set ps.
          files (w\<lparr>fs_log := fs_log w @ [Exists (path_join UPLOAD_FOLDER q)]\<rparr>)
            (path_join UPLOAD_FOLDER p) = None"
    using Cons.prems by simp
  from Cons.IH [OF this] show ?case
    using Cons.prems by (simp add: Let_def os_path_exists_def)
qed

text \<open>
  C9. For a request that carries a file id (the guard \<^verbatim>\<open>if not file_id\<close> answers a
  missing or empty one with status 400), a second cleanup that follows the first one
  answers with an empty \<^verbatim>\<open>deleted\<close> list, and not with an error response.
\<close>

theorem cleanup_idempotent:
  assumes "req_file_id req = Some file_id" and "file_id \<noteq> []"
  shows "snd (cleanup req (fst (cleanup req w))) = Cleanup_response 0 []"
proof -
  let ?ps = "[dem_tif file_id, dem_heightmap_png file_id]"
  let ?w1 = "fst (cleanup_loop ?ps w [])"
  have w1: "fst (cleanup req w) = ?w1"
    using assms by (simp add: cleanup_def split_beta Let_def)
  have "\<forall>p \<in> set ?ps. files ?w1 (path_join UPLOAD_FOLDER p) = None"
    by (simp add: cleanup_loop_files del: cleanup_loop.simps)
  then have "snd (cleanup_loop ?ps ?w1 []) = []"
    by (rule cleanup_loop_nothing)
  then show ?thesis
    using assms w1 by (simp add: cleanup_def split_beta Let_def)
qed

theorem cleanup_idempotent_witness:
  "snd (cleanup \<lparr>req_file_id = Some ''ab'', req_resolution = None\<rparr>
     (fst (cleanup \<lparr>req_file_id = Some ''ab'', req_resolution = None\<rparr>
        \<lparr>files = [''temp/dem_ab.tif'' \<mapsto> Bytes], fs_log = []\<rparr>)))
   = Cleanup_response 0 []
   \<and> snd (cleanup \<lparr>req_file_id = Some ''ab'', req_resolution = None\<rparr>
        \<lparr>files = [''temp/dem_ab.tif'' \<mapsto> Bytes], fs_log = []\<rparr>)
   = Cleanup_response 1 [''dem_ab.tif'']"
proof -
  have first: "snd (cleanup \<lparr>req_file_id = Some ''ab'', req_resolution = None\<rparr>
        \<lparr>files = [''temp/dem_ab.tif'' \<mapsto> Bytes], fs_log = []\<rparr>)
      = Cleanup_response 1 [''dem_ab.tif'']"
    by (simp add: cleanup_def dem_tif_def dem_heightmap_png_def path_join_def
        UPLOAD_FOLDER_def os_path_exists_def os_remove_def Let_def)
  show ?thesis
    using cleanup_idempotent [of "\<lparr>req_file_id = Some ''ab'', req_resolution = None\<rparr>" "''ab''"
        "\<lparr>files = [''temp/dem_ab.tif'' \<mapsto> Bytes], fs_log = []\<rparr>"] first
    by simp
qed

subsection \<open>Reductions over finite cells\<close>

lemma fold_nanmin2_Fin: "fold nanmin2 (map Fin xs) (Fin x) = Fin (fold min xs x)"
  by (induction xs arbitrary: x) (auto simp: nanmin2_def min_def)

lemma fold_nanmax2_Fin: "fold nanmax2 (map Fin xs) (Fin x) = Fin (fold max xs x)"
  by (induction xs arbitrary: x) (auto simp: nanmax2_def max_def)



lemma reduce_Fin:
  assumes "\<And>xs x. fold f (map Fin xs) (Fin x) = Fin (fold h xs x)" and "cells \<noteq> []"
  shows "reduce f (map Fin cells) = Inr (Fin (fold h (tl cells) (hd cells)))"
  using assms by (cases cells) (simp_all add: reduce_def)

lemma fold_min_Min: "cells \<noteq> [] \<Longrightarrow> fold min (tl cells) (hd cells) = Min (set cells)"
  by (cases cells) (simp_all add: Min.set_eq_fold [symmetric])

lemma fold_max_Max: "cells \<noteq> [] \<Longrightarrow> fold max (tl cells) (hd cells) = Max (set cells)"
  by (cases cells) (simp_all add: Max.set_eq_fold [symmetric])

lemma concat_map_Fin: "concat (map (map Fin) g) = map Fin (concat g)"
  by (simp add: map_concat)

lemma np_nanmin_Fin: "cells \<noteq> [] \<Longrightarrow> np_nanmin (map Fin cells) = Inr (Fin (Min (set cells)))"
  by (simp add: np_nanmin_def reduce_Fin [OF fold_nanmin2_Fin] fold_min_Min)

lemma np_nanmax_Fin: "cells \<noteq> [] \<Longrightarrow> np_nanmax (map Fin cells) = Inr (Fin (Max (set cells)))"
  by (simp add: np_nanmax_def reduce_Fin [OF fold_nanmax2_Fin] fold_max_Max)



lemma zeros_like_Fin: "zeros_like (map (map Fin) g) = map (map (\<lambda>x. Fin 0)) g"
  by (simp add: zeros_like_def comp_def)

subsection \<open>Double arithmetic on finite operands\<close>

lemma dbl_max_large: "2 ^ 53 \<le> dbl_max"
  by (simp add: dbl_max_def)

lemma fl_of_Fin: "\<bar>rd x\<bar> \<le> dbl_max \<Longrightarrow> fl_of x = Fin (rd x)"
  by (simp add: fl_of_def)

lemma fl_of_0 [simp]: "fl_of 0 = Fin 0"
  using dbl_max_large by (simp add: fl_of_def)

lemma fl_of_1 [simp]: "fl_of 1 = Fin 1"
  using dbl_max_large by (simp add: fl_of_def)

lemma numeral_le_dbl_max:
  assumes "numeral w < (2::nat) ^ 53"
  shows "(numeral w :: real) \<le> dbl_max"
proof -
  have "real (numeral w) < real (2 ^ 53)" using assms by (simp only: of_nat_less_iff)
  then have "(numeral w :: real) < 2 ^ 53" by (simp only: of_nat_numeral of_nat_power)
  with dbl_max_large show ?thesis by linarith
qed

lemma fl_of_numeral [simp]:
  assumes "numeral w < (2::nat) ^ 53"
  shows "fl_of (numeral w) = Fin (numeral w)"
proof -
  have r: "rd (numeral w) = numeral w" using assms by (rule rd_numeral)
  have "\<bar>rd (numeral w)\<bar> \<le> dbl_max"
    using numeral_le_dbl_max [OF assms] by (simp only: r abs_numeral)
  from fl_of_Fin [OF this] show ?thesis by (simp only: r)
qed

lemma fl_of_neg_numeral [simp]:
  assumes "numeral w < (2::nat) ^ 53"
  shows "fl_of (- numeral w) = Fin (- numeral w)"
proof -
  have r: "rd (- numeral w) = - numeral w" using assms by (rule rd_neg_numeral)
  have "\<bar>rd (- numeral w)\<bar> \<le> dbl_max"
    using numeral_le_dbl_max [OF assms] by (simp only: r abs_minus abs_numeral)
  from fl_of_Fin [OF this] show ?thesis by (simp only: r)
qed

lemma fl_sub_Fin [simp]: "fl_sub (Fin a) (Fin b) = fl_of (a - b)"
  by (simp add: fl_sub_def)

lemma rd_unit:
  assumes "0 \<le> q" "q \<le> 1"
  shows "0 \<le> rd q" and "rd q \<le> 1"
proof -
  show "0 \<le> rd q" using assms(1) by (rule rd_nonneg)
  have "rd q \<le> rd 1" using assms by (rule rd_mono)
  then show "rd q \<le> 1" by simp
qed

text \<open>
  One cell of the rescaled grid, for doubles \<open>lo \<le> x \<le> hi\<close> with \<open>lo < hi\<close> whose range does
  not overflow: both differences and the quotient are finite, and the quotient lies in
  \<open>[0, 1]\<close>.
\<close>

lemma rescale_cell:
  assumes lt: "lo < hi" and lo: "rd lo = lo" and hi: "rd hi = hi"
    and range: "rd (hi - lo) \<le> dbl_max" and x: "lo \<le> x" "x \<le> hi"
  shows "fl_div (fl_sub (Fin x) (Fin lo)) (fl_sub (Fin hi) (Fin lo))
           = Fin (rd (rd (x - lo) / rd (hi - lo)))"
    and "0 \<le> rd (rd (x - lo) / rd (hi - lo))" and "rd (rd (x - lo) / rd (hi - lo)) \<le> 1"
proof -
  let ?D = "rd (hi - lo)" and ?a = "rd (x - lo)"
  have D: "0 < ?D" using lo hi lt by (rule rd_diff_pos)
  then have fD: "fl_of (hi - lo) = Fin ?D" using range by (simp add: fl_of_Fin)
  have a0: "0 \<le> ?a" using x(1) by (intro rd_nonneg) simp
  have aD: "?a \<le> ?D" using x by (intro rd_mono) simp_all
  then have fa: "fl_of (x - lo) = Fin ?a" using a0 range by (simp add: fl_of_Fin)
  have q: "0 \<le> ?a / ?D" "?a / ?D \<le> 1" using a0 aD D by simp_all
  from rd_unit [OF q] show "0 \<le> rd (?a / ?D)" and q1: "rd (?a / ?D) \<le> 1" by simp_all
  have "\<bar>rd (?a / ?D)\<bar> \<le> dbl_max"
    using rd_unit [OF q] dbl_max_large by simp
  then have "fl_of (?a / ?D) = Fin (rd (?a / ?D))" by (rule fl_of_Fin)
  then show "fl_div (fl_sub (Fin x) (Fin lo)) (fl_sub (Fin hi) (Fin lo)) = Fin (rd (?a / ?D))"
    using D by (simp add: fD fa)
qed

lemma rescale_double:
  assumes lt: "lo < hi" and lo: "rd lo = lo" and hi: "rd hi = hi"
    and range: "rd (hi - lo) \<le> dbl_max"
    and cells: "\<forall>row \<in> set g. \<forall>x \<in> set row. lo \<le> x \<and> x \<le> hi"
  shows "rescale (Fin lo) (Fin hi) (map (map Fin) g)
           = map (map (\<lambda>x. Fin (rd (rd (x - lo) / rd (hi - lo))))) g"
  unfolding rescale_def map_map comp_def
  using cells by (intro map_cong refl) (simp add: rescale_cell(1) [OF lt lo hi range] del: fl_sub_Fin)

subsection \<open>Normalizer\<close>


lemma extrema_double:
  fixes cells :: "real list"
  assumes "cells \<noteq> []" and "\<forall>x \<in> set cells. is_double x"
  shows "rd (Min (set cells)) = Min (set cells)" and "rd (Max (set cells)) = Max (set cells)"
proof -
  have "set cells \<noteq> {}" using assms(1) by simp
  then have "Min (set cells) \<in> set cells" "Max (set cells) \<in> set cells"
    by (rule Min_in [OF finite_set], rule Max_in [OF finite_set])
  then show "rd (Min (set cells)) = Min (set cells)" and "rd (Max (set cells)) = Max (set cells)"
    using assms(2) by (simp_all add: is_double_def)
qed

lemma rescale_extrema:
  fixes g :: "real grid"
  assumes ne: "concat g \<noteq> []" and dbl: "\<forall>x \<in> set (concat g). is_double x"
    and range: "rd (Max (set (concat g)) - Min (set (concat g))) \<le> dbl_max"
    and lt: "Min (set (concat g)) < Max (set (concat g))"
  shows "rescale (Fin (Min (set (concat g)))) (Fin (Max (set (concat g)))) (map (map Fin) g)
           = map (map (\<lambda>x. Fin (double_scale (Min (set (concat g))) (Max (set (concat g))) x))) g"
proof -
  let ?lo = "Min (set (concat g))" and ?hi = "Max (set (concat g))"
  have cells: "\<forall>row \<in> set g. \<forall>x \<in> set row. ?lo \<le> x \<and> x \<le> ?hi"
  proof (intro ballI)
    fix row x assume "row \<in> set g" "x \<in> set row"
    then have "x \<in> set (concat g)" by auto
    then show "?lo \<le> x \<and> x \<le> ?hi" by simp
  qed
  show ?thesis
    using rescale_double [OF lt extrema_double [OF ne dbl] range cells] lt
    by (simp add: double_scale_def)
qed

lemma normalize_backend_Fin:
  fixes g :: "real grid"
  assumes ne: "concat g \<noteq> []" and dbl: "\<forall>x \<in> set (concat g). is_double x"
    and range: "rd (Max (set (concat g)) - Min (set (concat g))) \<le> dbl_max"
  shows "normalize_backend (map (map Fin) g) =
           Inr (map (map (\<lambda>x. Fin (double_scale (Min (set (concat g))) (Max (set (concat g))) x))) g)"
proof (cases "Min (set (concat g)) < Max (set (concat g))")
  case True
  then show ?thesis
    using ne rescale_extrema [OF ne dbl range True]
    by (simp add: normalize_backend_def concat_map_Fin np_nanmin_Fin np_nanmax_Fin)
next
  case False
  then show ?thesis
    using ne
    by (simp add: normalize_backend_def concat_map_Fin np_nanmin_Fin np_nanmax_Fin
        zeros_like_Fin double_scale_def)
qed


lemma is_double_numeral: "numeral w < (2::nat) ^ 53 \<Longrightarrow> is_double (numeral w)"
  using numeral_le_dbl_max [of w] by (simp add: is_double_def)

lemma is_double_0 [simp]: "is_double 0"
  using dbl_max_large by (simp add: is_double_def)



lemma rd_third: "rd (1 / 3) = 6004799503160661 / 18014398509481984"
  by (simp add: rd_at [where a = 0 and b = 54] py_round_def)

lemma rd_two_thirds: "rd (2 / 3) = 6004799503160661 / 9007199254740992"
  by (simp add: rd_at [where a = 0 and b = 53] py_round_def)

lemma sample_range: "rd (250 - 100) \<le> dbl_max"
  using dbl_max_large by simp

lemma normalize_backend_sample:
  "normalize_backend [[Fin 100, Fin 150], [Fin 200, Fin 250]] =
     Inr [[Fin 0, Fin (6004799503160661 / 18014398509481984)],
          [Fin (6004799503160661 / 9007199254740992), Fin 1]]"
  using normalize_backend_Fin [of "[[100, 150], [200, 250]]"] sample_range
  by (simp add: is_double_numeral double_scale_def rd_third rd_two_thirds)




subsection \<open>Cells that are not finite\<close>





























subsection \<open>Quantizer\<close>


text \<open>
  The product of a value in \<open>[0, 1]\<close> with an integer level count below \<open>2\<^sup>5\<^sup>3\<close> is
  rounded to a double that lies between \<open>0\<close> and the level count.
\<close>

lemma scaled_product:
  assumes "0 \<le> x" "x \<le> 1" and n: "numeral w < (2::nat) ^ 53"
  shows "fl_mul (Fin x) (Fin (numeral w)) = Fin (rd (x * numeral w))"
    and "0 \<le> rd (x * numeral w)" and "rd (x * numeral w) \<le> numeral w"
proof -
  have p: "0 \<le> x * numeral w" "x * numeral w \<le> numeral w"
    using assms(1,2) by (simp_all add: mult_left_le_one_le)
  show lo: "0 \<le> rd (x * numeral w)" using p(1) by (rule rd_nonneg)
  have "rd (x * numeral w) \<le> rd (numeral w)" using p by (rule rd_mono)
  then show hi: "rd (x * numeral w) \<le> numeral w" by (simp only: rd_numeral [OF n])
  have "(numeral w :: real) \<le> dbl_max" using n by (rule numeral_le_dbl_max)
  then have "\<bar>rd (x * numeral w)\<bar> \<le> dbl_max" using lo hi by simp
  then show "fl_mul (Fin x) (Fin (numeral w)) = Fin (rd (x * numeral w))"
    by (simp add: fl_of_Fin)
qed





lemma rd_third_255: "rd (1531223873305968555 / 18014398509481984) = 85"
  by (simp add: rd_at [where a = 0 and b = 46] py_round_def)







subsection \<open>Gray levels of the backend\<close>

lemma upt_2: "[0..<2] = [0, 1]"
  by (simp add: upt_rec)

lemma upt_3: "[0..<3] = [0, 1, 2]"
  by (simp add: upt_rec)

text \<open>
  \<^verbatim>\<open>k / 255.0 * 65535\<close> is \<open>257 * k\<close> exactly for each of the 256 pixel values, although
  \<open>k / 255.0\<close> is rounded: the error of the quotient is removed again when the product
  is rounded. The values are checked one by one, binade by binade.
\<close>

lemma gray_binade_0:
  "\<forall>k \<in> set [1..<2]. rd (rd (real k / 255) * 65535) = 257 * real k"
  by (simp add: upt_rec rd_at [where a = 0 and b = 60] rd_at [where a = 0 and b = 44]
      py_round_def)

lemma gray_binade_1:
  "\<forall>k \<in> set [2..<4]. rd (rd (real k / 255) * 65535) = 257 * real k"
  by (simp add: upt_rec rd_at [where a = 0 and b = 59] rd_at [where a = 0 and b = 43]
      py_round_def)

lemma gray_binade_2:
  "\<forall>k \<in> set [4..<8]. rd (rd (real k / 255) * 65535) = 257 * real k"
  by (simp add: upt_rec rd_at [where a = 0 and b = 58] rd_at [where a = 0 and b = 42]
      py_round_def)

lemma gray_binade_3:
  "\<forall>k \<in> set [8..<16]. rd (rd (real k / 255) * 65535) = 257 * real k"
  by (simp add: upt_rec rd_at [where a = 0 and b = 57] rd_at [where a = 0 and b = 41]
      py_round_def)

lemma gray_binade_4:
  "\<forall>k \<in> set [16..<32]. rd (rd (real k / 255) * 65535) = 257 * real k"
  by (simp add: upt_rec rd_at [where a = 0 and b = 56] rd_at [where a = 0 and b = 40]
      py_round_def)

lemma gray_binade_5:
  "\<forall>k \<in> set [32..<64]. rd (rd (real k / 255) * 65535) = 257 * real k"
  by (simp add: upt_rec rd_at [where a = 0 and b = 55] rd_at [where a = 0 and b = 39]
      py_round_def)

lemma gray_binade_6:
  "\<forall>k \<in> set [64..<128]. rd (rd (real k / 255) * 65535) = 257 * real k"
  by (simp add: upt_rec rd_at [where a = 0 and b = 54] rd_at [where a = 0 and b = 38]
      py_round_def)

lemma gray_binade_7:
  "\<forall>k \<in> set [128..<255]. rd (rd (real k / 255) * 65535) = 257 * real k"
  by (simp add: upt_rec rd_at [where a = 0 and b = 53] rd_at [where a = 0 and b = 37]
      py_round_def)

lemma gray_round:
  assumes "k < 256"
  shows "rd (rd (real k / 255) * 65535) = 257 * real k"
proof -
  consider "k = 0" | "k \<in> set [1..<2]" | "k \<in> set [2..<4]" | "k \<in> set [4..<8]"
    | "k \<in> set [8..<16]" | "k \<in> set [16..<32]" | "k \<in> set [32..<64]"
    | "k \<in> set [64..<128]" | "k \<in> set [128..<255]" | "k = 255"
    using assms by (simp only: set_upt atLeastLessThan_iff) arith
  then show ?thesis
  proof cases
    case 1
    then show ?thesis by simp
  next
    case 2
    with gray_binade_0 show ?thesis by (rule bspec)
  next
    case 3
    with gray_binade_1 show ?thesis by (rule bspec)
  next
    case 4
    with gray_binade_2 show ?thesis by (rule bspec)
  next
    case 5
    with gray_binade_3 show ?thesis by (rule bspec)
  next
    case 6
    with gray_binade_4 show ?thesis by (rule bspec)
  next
    case 7
    with gray_binade_5 show ?thesis by (rule bspec)
  next
    case 8
    with gray_binade_6 show ?thesis by (rule bspec)
  next
    case 9
    with gray_binade_7 show ?thesis by (rule bspec)
  next
    case 10
    then show ?thesis by simp
  qed
qed

lemma to_16bit_eq: "to_16bit p = of_nat (257 * unat p)"
proof -
  define k where "k = unat p"
  have k: "k < 256"
    using unsigned_less [of p, where ?'a = nat] by (simp add: k_def)
  have q: "0 \<le> real k / 255" "real k / 255 \<le> 1" using k by simp_all
  have "\<bar>rd (real k / 255)\<bar> \<le> dbl_max"
    using rd_unit [OF q] dbl_max_large by simp
  then have d: "fl_div (Fin (real k)) (Fin 255) = Fin (rd (real k / 255))"
    by (simp add: fl_of_Fin)
  have n: "(65535::nat) < 2 ^ 53" by simp
  have m: "fl_mul (Fin (rd (real k / 255))) (Fin 65535) = Fin (rd (rd (real k / 255) * 65535))"
    using scaled_product(1) [OF rd_unit [OF q] n] .
  have "to_16bit p = word_of_int (trunc (rd (rd (real k / 255) * 65535)))"
    unfolding to_16bit_def k_def [symmetric] d m by simp
  also have "rd (rd (real k / 255) * 65535) = real_of_int (int (257 * k))"
    by (simp add: gray_round [OF k])
  also have "trunc (real_of_int (int (257 * k))) = int (257 * k)"
    unfolding trunc_def by (simp only: floor_of_int ceiling_of_int if_cancel)
  finally show ?thesis
    by (simp add: k_def del: of_nat_mult)
qed

lemma to_16bit_257: "unat (to_16bit p) = 257 * unat p"
proof -
  have "unat (to_16bit p) = (257 * unat p) mod 65536"
    by (simp only: to_16bit_eq unat_of_nat) simp
  moreover have "unat p < 256"
    using unsigned_less [of p, where ?'a = nat] by simp
  ultimately show ?thesis by simp
qed

lemma rd_two_thirds_255: "rd (1531223873305968555 / 9007199254740992) = 170"
  by (simp add: rd_at [where a = 0 and b = 45] py_round_def)

text \<open>
  C10. Whatever the raster, the resolution and the two library functions, every pixel
  of a heightmap the backend produces is \<open>257 * k\<close> for some \<open>k\<close> in \<open>[0, 255]\<close>: the
  image is resized as an 8-bit image and each 8-bit pixel \<open>k\<close> is rescaled to
  \<open>k / 255 * 65535\<close>.
\<close>

theorem backend_gray_levels:
  assumes "backend_heightmap L src resolution = Inr heightmap"
  shows "\<forall>row \<in> set heightmap. \<forall>p \<in> set row. \<exists>k \<le> 255. unat p = 257 * k"
proof (intro ballI)
  fix row p assume row: "row \<in> set heightmap" and p: "p \<in> set row"
  from assms obtain resized where "heightmap = map (map to_16bit) resized"
    by (auto simp: backend_heightmap_def split: sum.splits)
  with row p obtain q where "p = to_16bit q" by auto
  moreover have "unat q \<le> 255" using unsigned_less [of q, where ?'a = nat] by simp
  ultimately show "\<exists>k \<le> 255. unat p = 257 * k"
    using to_16bit_257 by blast
qed


theorem backend_gray_levels_witness:
  "backend_heightmap sample_libs \<lparr>band1 = [[Fin 100, Fin 150], [Fin 200, Fin 250]], nodata = None\<rparr> 2
     = Inr [[0, 21845], [43690, 65535]]
   \<and> (\<exists>k \<le> 255. unat (21845 :: 16 word) = 257 * k)
   \<and> (\<exists>k \<le> 255. unat (43690 :: 16 word) = 257 * k)
   \<and> (\<exists>k \<le> 255. unat (65535 :: 16 word) = 257 * k)"
proof -
  have q: "fl_of (1531223873305968555 / 18014398509481984) = Fin 85"
    "fl_of (1531223873305968555 / 9007199254740992) = Fin 170"
    by (simp_all add: fl_of_def rd_third_255 rd_two_thirds_255 dbl_max_def)
  have run: "backend_heightmap sample_libs
      \<lparr>band1 = [[Fin 100, Fin 150], [Fin 200, Fin 250]], nodata = None\<rparr> 2
     = Inr [[0, 21845], [43690, 65535]]"
    by (simp add: backend_heightmap_def handle_nodata_def fill_nan_def normalize_backend_sample
        sample_libs_def nearest_resize_def shape_def upt_2 quantize_8bit_def q trunc_def
        to_16bit_eq)
  from backend_gray_levels [OF run] run show ?thesis by simp
qed

subsection \<open>Gap filler\<close>


lemma shape_rect:
  "\<forall>row \<in> set g. length row = W \<Longrightarrow> 0 < length g \<Longrightarrow> shape g = (length g, W)"
  by (cases g) (simp_all add: shape_def)

lemma indexed_map_aux:
  "map (\<lambda>(j, x). ((i, j), x)) (enumerate n (map f row)) =
   map (\<lambda>(p, v). (p, f v)) (map (\<lambda>(j, x). ((i, j), x)) (enumerate n row))"
  by (induction row arbitrary: n) simp_all

lemma indexed_map:
  "indexed (map (map f) g) = map (\<lambda>(p, v). (p, f v)) (indexed g)"
proof -
  have "\<And>n. concat (map (\<lambda>(i, row). map (\<lambda>(j, x). ((i, j), x)) (enumerate 0 row)) (enumerate n (map (map f) g)))
      = map (\<lambda>(p, v). (p, f v)) (concat (map (\<lambda>(i, row). map (\<lambda>(j, x). ((i, j), x)) (enumerate 0 row)) (enumerate n g)))"
    by (induction g) (simp_all add: indexed_map_aux)
  then show ?thesis by (simp add: indexed_def)
qed

lemma fl_eq_nan: "isnan v \<Longrightarrow> \<not> fl_eq v nd"
  by (cases v) simp_all

lemma known_cells_handle_nodata:
  assumes "nodata src = Some nd"
  shows "known_cells (handle_nodata src) =
           filter (\<lambda>(p, v). \<not> fl_eq v nd \<and> \<not> isnan v) (indexed (band1 src))"
proof -
  have "filter (\<lambda>(p, v). \<not> isnan v) (map (\<lambda>(p, v). (p, if fl_eq v nd then NaN else v)) xs)
      = filter (\<lambda>(p, v). \<not> fl_eq v nd \<and> \<not> isnan v) xs" for xs :: "((nat \<times> nat) \<times> fl) list"
    by (induction xs) (auto simp: fl_eq_nan)
  then show ?thesis
    using assms by (simp add: known_cells_def handle_nodata_def indexed_map)
qed

lemma fold_add_Fin: "fold (\<lambda>v acc. lib_add acc v) (map Fin rs) (Fin a) = Fin (a + sum_list rs)"
  by (induction rs arbitrary: a) (simp_all add: algebra_simps)

lemma np_nanmean_Fin:
  "rs \<noteq> [] \<Longrightarrow> np_nanmean (map Fin rs) = Fin (sum_list rs / real (length rs))"
  by (simp add: np_nanmean_def Let_def filter_map comp_def fold_add_Fin)

lemma snd_enumerate: "map (snd \<circ> (\<lambda>(j, x). ((i, j), x))) (enumerate n row) = row"
  by (induction row arbitrary: n) simp_all

lemma snd_indexed: "map snd (indexed g) = concat g"
proof -
  have "map snd (concat (map (\<lambda>(i, row). map (\<lambda>(j, x). ((i, j), x)) (enumerate 0 row))
                         (enumerate n g))) = concat g" for n
    by (induction g arbitrary: n) (simp_all add: snd_enumerate)
  then show ?thesis by (simp add: indexed_def)
qed

lemma no_known_cells:
  assumes "known_cells g = []" and "x \<in> set (concat g)"
  shows "isnan x"
proof -
  from assms(2) obtain p where "(p, x) \<in> set (indexed g)"
    unfolding snd_indexed [symmetric] by auto
  then show ?thesis
    using assms(1) by (auto simp: known_cells_def filter_empty_conv)
qed

lemma fill_nan_no_known_cells:
  assumes "known_cells g = []" and "concat g \<noteq> []"
  shows "fill_nan L g = Inl ValueError"
proof -
  from assms(2) obtain x where x: "x \<in> set (concat g)"
    by (cases "concat g") auto
  then have "isnan x" using assms(1) by (rule no_known_cells [rotated])
  with x have "\<exists>x \<in> set (concat g). isnan x" ..
  then show ?thesis
    by (simp add: fill_nan_def assms(1) griddata_def split: prod.splits)
qed

lemma concat_handle_nodata: "concat (handle_nodata src) = [] \<longleftrightarrow> concat (band1 src) = []"
  by (cases "nodata src") (simp_all add: handle_nodata_def)

text \<open>
  Where at least three known cells span a triangle and the library returns an
  interpolant \<open>f\<close> for them, a missing cell \<open>(i, j)\<close> gets the value of \<open>f\<close> where \<open>f\<close> is
  defined and the mean of the known values elsewhere.
\<close>

lemma gap_filler_defined:
  assumes nd: "nodata src = Some nd"
    and rect: "\<forall>row \<in> set (band1 src). length row = W"
    and i: "i < length (band1 src)" and j: "j < W"
    and missing: "fl_eq (band1 src ! i ! j) nd"
    and known: "\<not> degenerate (map fst (known_cells (handle_nodata src)))"
    and lib: "linear_interpolant L (map fst (known_cells (handle_nodata src)))
                (map snd (known_cells (handle_nodata src))) = Inr f"
  shows "\<exists>filled. fill_nan L (handle_nodata src) = Inr filled
            \<and> filled ! i ! j =
                (case f (i, j) of
                   Some v \<Rightarrow> v
                 | None \<Rightarrow> np_nanmean (map snd (known_cells (handle_nodata src))))"
proof -
  let ?g = "handle_nodata src"
  have g: "?g = map (map (\<lambda>x. if fl_eq x nd then NaN else x)) (band1 src)"
    using nd by (simp add: handle_nodata_def)
  have row: "length (band1 src ! i) = W"
    using rect i by simp
  have cell: "?g ! i ! j = NaN"
    using i j row missing by (simp add: g)
  have "?g ! i ! j \<in> set (concat ?g)"
    using i j row by (auto simp: g intro!: bexI [of _ "band1 src ! i"] image_eqI [of _ _ "band1 src ! i ! j"])
  then have nan: "\<exists>x \<in> set (concat ?g). isnan x"
    using cell by (metis isnan.simps(1))
  have ne: "known_cells ?g \<noteq> []"
    using known by (auto simp: degenerate_def)
  have "shape ?g = (length (band1 src), W)"
    using shape_rect [of ?g W] rect i by (cases "band1 src") (simp_all add: g)
  then have fill: "fill_nan L ?g =
      Inr (map (map (\<lambda>p. case f p of Some v \<Rightarrow> v
                          | None \<Rightarrow> np_nanmean (map snd (known_cells ?g))))
             (mgrid (length (band1 src)) W))"
    using nan lib known ne unfolding fill_nan_def griddata_def Let_def by simp
  have "map (map (\<lambda>p. case f p of Some v \<Rightarrow> v
                          | None \<Rightarrow> np_nanmean (map snd (known_cells ?g))))
             (mgrid (length (band1 src)) W) ! i ! j
      = (case f (i, j) of Some v \<Rightarrow> v
         | None \<Rightarrow> np_nanmean (map snd (known_cells ?g)))"
    using i j by (simp add: mgrid_def split: option.splits)
  with fill show ?thesis by simp
qed

text \<open>
  On a 3 x 3 raster with the known cells \<open>100\<close>, \<open>200\<close>, \<open>300\<close> at \<open>(0, 0)\<close>, \<open>(0, 2)\<close>,
  \<open>(2, 0)\<close>: the cells of the triangle are interpolated, the three cells outside it get
  the mean \<open>200\<close>.
\<close>

lemma gap_filler_sample:
  "fill_nan sample_libs
     (handle_nodata \<lparr>band1 = [[Fin 100, Fin (- 9999), Fin 200],
                               [Fin (- 9999), Fin (- 9999), Fin (- 9999)],
                               [Fin 300, Fin (- 9999), Fin (- 9999)]],
                      nodata = Some (Fin (- 9999))\<rparr>)
   = Inr [[Fin 100, Fin 150, Fin 200], [Fin 200, Fin 250, Fin 200], [Fin 300, Fin 200, Fin 200]]"
proof -
  let ?src = "\<lparr>band1 = [[Fin 100, Fin (- 9999), Fin 200],
                          [Fin (- 9999), Fin (- 9999), Fin (- 9999)],
                          [Fin 300, Fin (- 9999), Fin (- 9999)]],
                 nodata = Some (Fin (- 9999))\<rparr>"
  have hn: "handle_nodata ?src = [[Fin 100, NaN, Fin 200], [NaN, NaN, NaN], [Fin 300, NaN, NaN]]"
    by (simp add: handle_nodata_def)
  have known: "known_cells (handle_nodata ?src) =
      [((0, 0), Fin 100), ((0, 2), Fin 200), ((2, 0), Fin 300)]"
    by (simp add: hn known_cells_def indexed_def)
  show ?thesis
    unfolding fill_nan_def known Let_def
    by (simp add: hn griddata_def degenerate_def cross_def sample_libs_def triangle_interpolant_def
        shape_def mgrid_def upt_3 np_nanmean_def)
qed

text \<open>
  Where the known cells span no triangle (fewer than three, or all on one line) no
  grid is returned either: \<^verbatim>\<open>griddata\<close> raises \<^verbatim>\<open>QhullError\<close>.
\<close>

lemma gap_filler_degenerate:
  assumes "known_cells g \<noteq> []" and "degenerate (map fst (known_cells g))"
    and "\<exists>x \<in> set (concat g). isnan x"
  shows "fill_nan L g = Inl QhullError"
  using assms by (simp add: fill_nan_def griddata_def split: prod.splits)

lemma gap_filler_single_cell:
  "fill_nan L (handle_nodata \<lparr>band1 = [[Fin 100, Fin (- 9999)]], nodata = Some (Fin (- 9999))\<rparr>)
     = Inl QhullError"
proof -
  let ?g = "handle_nodata \<lparr>band1 = [[Fin 100, Fin (- 9999)]], nodata = Some (Fin (- 9999))\<rparr>"
  have hn: "?g = [[Fin 100, NaN]]" by (simp add: handle_nodata_def)
  have known: "known_cells ?g = [((0, 0), Fin 100)]"
    by (simp add: hn known_cells_def indexed_def)
  show ?thesis
    by (rule gap_filler_degenerate) (simp_all add: known degenerate_def cross_def, simp add: hn)
qed

text \<open>
  C3. The last clause of the claim fails in the code. When the raster has cells and none
  of them is known (each holds the no-data value or NaN), the backend does compute the
  fill value \<open>0\<close>, but it hands the empty sample set to \<^verbatim>\<open>griddata\<close>, which raises
  \<^verbatim>\<open>ValueError\<close>: the gap filler returns no grid, and the pipeline fails with that
  exception instead of producing the all-zero grid.
\<close>

theorem gap_filler_no_known_cell:
  assumes "known_cells (handle_nodata src) = []" and "concat (band1 src) \<noteq> []"
  shows "fill_nan L (handle_nodata src) = Inl ValueError
       \<and> backend_heightmap L src resolution = Inl ValueError"
proof -
  have "concat (handle_nodata src) \<noteq> []"
    using assms(2) unfolding concat_handle_nodata .
  with assms(1) have "fill_nan L (handle_nodata src) = Inl ValueError"
    by (rule fill_nan_no_known_cells)
  then show ?thesis by (simp add: backend_heightmap_def)
qed

theorem gap_filler_no_known_cell_witness:
  "known_cells (handle_nodata \<lparr>band1 = [[Fin (- 9999), Fin (- 9999)], [Fin (- 9999), Fin (- 9999)]],
                                nodata = Some (Fin (- 9999))\<rparr>) = []
   \<and> concat [[Fin (- 9999), Fin (- 9999)], [Fin (- 9999), Fin (- 9999)]] \<noteq> []
   \<and> fill_nan sample_libs
        (handle_nodata \<lparr>band1 = [[Fin (- 9999), Fin (- 9999)], [Fin (- 9999), Fin (- 9999)]],
                         nodata = Some (Fin (- 9999))\<rparr>) = Inl ValueError
   \<and> backend_heightmap sample_libs
        \<lparr>band1 = [[Fin (- 9999), Fin (- 9999)], [Fin (- 9999), Fin (- 9999)]],
         nodata = Some (Fin (- 9999))\<rparr> 513 = Inl ValueError"
proof -
  let ?src = "\<lparr>band1 = [[Fin (- 9999), Fin (- 9999)], [Fin (- 9999), Fin (- 9999)]],
                 nodata = Some (Fin (- 9999))\<rparr>"
  have known: "known_cells (handle_nodata ?src) = []"
    by (simp add: handle_nodata_def known_cells_def indexed_def)
  show ?thesis
    using gap_filler_no_known_cell [of ?src sample_libs 513] known by simp
qed

subsection \<open>Resampler\<close>


lemma py_round_of_nat: "py_round (real n) = int n"
  by (simp add: py_round_def)

lemma zoom_scale_nonneg: "0 < n \<Longrightarrow> 0 \<le> zoom_scale n m"
  by (simp add: zoom_scale_def)

lemma zoom_coordinate_le:
  assumes "0 < n" "i < m"
  shows "real i * zoom_scale n m \<le> real n - 1"
proof (cases "1 < m")
  case True
  have "real i \<le> real m - 1" using assms(2) by linarith
  moreover have "0 \<le> real n - 1" using assms(1) by simp
  ultimately have "real i * (real n - 1) \<le> (real m - 1) * (real n - 1)"
    by (rule mult_right_mono)
  moreover have "0 < real m - 1" using True by simp
  ultimately have "real i * (real n - 1) / (real m - 1) \<le> real n - 1"
    by (simp add: pos_divide_le_eq mult.commute)
  then show ?thesis using True by (simp add: zoom_scale_def)
next
  case False
  then have "i = 0" using assms(2) by simp
  then show ?thesis using assms(1) by simp
qed

lemma floor_index:
  assumes "0 \<le> y" "y \<le> real n - 1" "0 < n"
  shows "nat \<lfloor>y\<rfloor> < n"
proof -
  have "\<lfloor>y\<rfloor> \<le> int n - 1" using assms by (simp add: floor_le_iff) linarith
  then show ?thesis using assms by linarith
qed

lemma zoom_cell_Fin:
  assumes rect: "\<forall>row \<in> set g. length row = W" and H: "0 < length g" and W: "0 < W"
    and y: "0 \<le> y" "y \<le> real (length g) - 1" and x: "0 \<le> x" "x \<le> real W - 1"
  shows "zoom_cell (map (map Fin) g) y x = Fin (bilinear g y x)"
proof -
  let ?i0 = "nat \<lfloor>y\<rfloor>" and ?j0 = "nat \<lfloor>x\<rfloor>"
  let ?i1 = "min (?i0 + 1) (length g - 1)" and ?j1 = "min (?j0 + 1) (W - 1)"
  have i0: "?i0 < length g" using floor_index [OF y H] .
  have j0: "?j0 < W" using floor_index [OF x W] .
  have i1: "?i1 < length g" using H by (intro min.strict_coboundedI2) simp
  have j1: "?j1 < W" using W by (intro min.strict_coboundedI2) simp
  have len: "\<And>i. i < length g \<Longrightarrow> length (g ! i) = W" using rect by simp
  have hd: "length (hd g) = W" using rect H by (cases g) simp_all
  have sh: "shape (map (map Fin) g) = (length g, W)"
    using rect H by (cases g) (simp_all add: shape_def)
  have nth: "\<And>i j. i < length g \<Longrightarrow> j < W \<Longrightarrow> map (map Fin) g ! i ! j = Fin (g ! i ! j)"
    by (simp add: len)
  show ?thesis
    unfolding zoom_cell_def bilinear_def sh hd Let_def prod.case
    by (simp only: nth [OF i0 j0] nth [OF i0 j1] nth [OF i1 j0] nth [OF i1 j1]
        lib_mul.simps lib_add.simps add.assoc)
qed

lemma ndimage_zoom_Fin:
  assumes rect: "\<forall>row \<in> set g. length row = W" and H: "0 < length g" and W: "0 < W"
    and oh: "py_round (real (length g) * zh) = int OH" and ow: "py_round (real W * zw) = int OW"
    and OH: "0 < OH" and OW: "0 < OW"
  shows "ndimage_zoom (zh, zw) (map (map Fin) g) =
           Inr (map (\<lambda>i. map (\<lambda>j. Fin (bilinear g (real i * zoom_scale (length g) OH)
                                                (real j * zoom_scale W OW)))
                           [0..<OW])
                    [0..<OH])"
proof -
  have sh: "shape (map (map Fin) g) = (length g, W)"
    using rect H by (cases g) (simp_all add: shape_def)
  have cell: "zoom_cell (map (map Fin) g) (real i * zoom_scale (length g) OH) (real j * zoom_scale W OW)
      = Fin (bilinear g (real i * zoom_scale (length g) OH) (real j * zoom_scale W OW))"
    if "i < OH" "j < OW" for i j
    using that zoom_cell_Fin [OF rect H W] zoom_coordinate_le [OF H] zoom_coordinate_le [OF W]
      zoom_scale_nonneg [OF H] zoom_scale_nonneg [OF W]
    by simp
  show ?thesis
    using H W OH OW
    by (simp add: ndimage_zoom_def sh oh ow Let_def cell)
qed

lemma resize_Fin:
  assumes rect: "\<forall>row \<in> set g. length row = W" and H: "0 < length g" and W: "0 < W"
    and T: "0 < T"
  shows "resize_to_resolution T (map (map Fin) g) =
           Inr (map (\<lambda>i. map (\<lambda>j. Fin (bilinear g (real i * zoom_scale (length g) T)
                                                (real j * zoom_scale W T)))
                           [0..<T])
                    [0..<T])"
proof -
  have sh: "shape (map (map Fin) g) = (length g, W)"
    using rect H by (cases g) (simp_all add: shape_def)
  have oh: "py_round (real (length g) * (real T / real (length g))) = int T"
    using H py_round_of_nat [of T] by simp
  have ow: "py_round (real W * (real T / real W)) = int T"
    using W py_round_of_nat [of T] by simp
  show ?thesis
    using H W ndimage_zoom_Fin [OF rect H W oh ow T T]
    by (simp add: resize_to_resolution_def sh)
qed

lemma bilinear_at_index:
  "bilinear g (real i) (real j) = g ! i ! j"
  by (simp add: bilinear_def)

lemma zoom_scale_same: "zoom_scale n n = 1"
  by (simp add: zoom_scale_def)

lemma grid_from_cells:
  assumes "\<forall>row \<in> set g. length row = W"
  shows "map (\<lambda>i. map (\<lambda>j. f (g ! i ! j)) [0..<W]) [0..<length g] = map (map f) g"
proof (rule nth_equalityI)
  show "length (map (\<lambda>i. map (\<lambda>j. f (g ! i ! j)) [0..<W]) [0..<length g]) = length (map (map f) g)"
    by simp
next
  fix i assume "i < length (map (\<lambda>i. map (\<lambda>j. f (g ! i ! j)) [0..<W]) [0..<length g])"
  then have i: "i < length g" by simp
  then have len: "length (g ! i) = W" using assms by simp
  have "map (\<lambda>j. f (g ! i ! j)) [0..<W] = map f (g ! i)"
    by (rule nth_equalityI) (simp_all add: len)
  then show "map (\<lambda>i. map (\<lambda>j. f (g ! i ! j)) [0..<W]) [0..<length g] ! i = map (map f) g ! i"
    using i by simp
qed


text \<open>
  C1, as the code has it. On an \<open>H\<times>W\<close> grid of finite samples the scripts return a
  \<open>T\<times>T\<close> grid whose cell \<open>(i, j)\<close> is the bilinear interpolation of the source at
  \<open>(i * (H - 1) / (T - 1), j * (W - 1) / (T - 1))\<close>, by the same formula whether \<open>T\<close> is
  larger or smaller than the source.
\<close>

theorem resampler_order1:
  assumes rect: "\<forall>row \<in> set g. length row = W" and H: "0 < length g" and W: "0 < W"
    and T: "0 < T"
  shows "\<exists>resized. resize_to_resolution T (map (map Fin) g) = Inr resized
           \<and> length resized = T \<and> (\<forall>row \<in> set resized. length row = T)
           \<and> (\<forall>i < T. \<forall>j < T.
                 resized ! i ! j =
                   Fin (bilinear g (real i * zoom_scale (length g) T) (real j * zoom_scale W T)))
           \<and> (1 < T \<longrightarrow> zoom_scale (length g) T = (real (length g) - 1) / (real T - 1)
                        \<and> zoom_scale W T = (real W - 1) / (real T - 1))"
  using resize_Fin [OF rect H W T] by (auto simp: zoom_scale_def)

theorem resampler_order1_witness:
  "length [[0, 1], [0, 1 :: real]] = 2
   \<and> resize_to_resolution 3 [[Fin 0, Fin 1], [Fin 0, Fin 1]] =
       Inr [[Fin 0, Fin (1 / 2), Fin 1], [Fin 0, Fin (1 / 2), Fin 1], [Fin 0, Fin (1 / 2), Fin 1]]
   \<and> zoom_scale 2 3 = 1 / 2"
proof -
  have run: "resize_to_resolution 3 [[Fin 0, Fin 1], [Fin 0, Fin 1]] =
       Inr [[Fin 0, Fin (1 / 2), Fin 1], [Fin 0, Fin (1 / 2), Fin 1], [Fin 0, Fin (1 / 2), Fin 1]]"
    using resize_Fin [of "[[0, 1], [0, 1]]" 2 3]
    by (simp add: upt_3 bilinear_def zoom_scale_def)
  show ?thesis
    using resampler_order1 [of "[[0, 1], [0, 1]]" 2 3] run
    by (simp add: zoom_scale_def)
qed

text \<open>
  With the coordinates \<open>(i * H / T, j * W / T)\<close> of the claim the middle column of a
  \<open>2\<times>2\<close> grid resampled to \<open>3\<times>3\<close> would read the source at \<open>2/3\<close>; the scripts read it
  at \<open>1/2\<close>. The backend does not ask for the bilinear filter: on a library that offers
  no other its resize fails.
\<close>

theorem resampler_coordinates_counterexample:
  "resize_to_resolution 3 [[Fin 0, Fin 1], [Fin 0, Fin 1]] =
       Inr [[Fin 0, Fin (1 / 2), Fin 1], [Fin 0, Fin (1 / 2), Fin 1], [Fin 0, Fin (1 / 2), Fin 1]]
   \<and> spec_resample 3 [[0, 1], [0, 1]] = [[0, 2 / 3, 1], [0, 2 / 3, 1], [0, 2 / 3, 1]]
   \<and> backend_heightmap bilinear_only_libs \<lparr>band1 = [[Fin 0, Fin 1]], nodata = None\<rparr> 2
       = Inl LibraryError"
proof -
  have "resize_to_resolution 3 [[Fin 0, Fin 1], [Fin 0, Fin 1]] =
       Inr [[Fin 0, Fin (1 / 2), Fin 1], [Fin 0, Fin (1 / 2), Fin 1], [Fin 0, Fin (1 / 2), Fin 1]]"
    using resize_Fin [of "[[0, 1], [0, 1]]" 2 3]
    by (simp add: upt_3 bilinear_def zoom_scale_def)
  moreover have "spec_resample 3 [[0, 1], [0, 1]] = [[0, 2 / 3, 1], [0, 2 / 3, 1], [0, 2 / 3, 1]]"
    by (simp add: spec_resample_def upt_3 bilinear_def)
  moreover have "normalize_backend [[Fin 0, Fin 1]] = Inr [[Fin 0, Fin 1]]"
    by (simp add: normalize_backend_def np_nanmin_def np_nanmax_def reduce_def nanmin2_def
        nanmax2_def rescale_def)
  then have "backend_heightmap bilinear_only_libs \<lparr>band1 = [[Fin 0, Fin 1]], nodata = None\<rparr> 2
       = Inl LibraryError"
    by (simp add: backend_heightmap_def handle_nodata_def fill_nan_def bilinear_only_libs_def)
  ultimately show ?thesis by blast
qed

lemma zoom_same_size:
  assumes rect: "\<forall>row \<in> set g. length row = W" and H: "0 < length g" and W: "0 < W"
  shows "ndimage_zoom (1, 1) (map (map Fin) g) = Inr (map (map Fin) g)"
  using ndimage_zoom_Fin [OF rect H W _ _ H W, of 1 1] grid_from_cells [OF rect, of Fin]
  by (simp add: py_round_of_nat zoom_scale_same bilinear_at_index)

lemma resize_same_size:
  assumes rect: "\<forall>row \<in> set g. length row = length g" and H: "0 < length g"
  shows "resize_to_resolution (length g) (map (map Fin) g) = Inr (map (map Fin) g)"
  using resize_Fin [OF rect H H H] grid_from_cells [OF rect, of Fin]
  by (simp add: zoom_scale_same bilinear_at_index)

text \<open>
  C8. Order-1 zoom of an \<open>H\<times>W\<close> grid of finite samples by the factors \<open>(1, 1)\<close>, that is
  to its own size, returns the grid itself; so does the resize step of the scripts when
  the target resolution is the size of a square grid. The equality is exact (the
  arithmetic of \<^verbatim>\<open>zoom\<close> is exact in the model), hence within any tolerance.
\<close>

theorem resample_identity:
  assumes rect: "\<forall>row \<in> set g. length row = W" and H: "0 < length g" and W: "0 < W"
  shows "ndimage_zoom (1, 1) (map (map Fin) g) = Inr (map (map Fin) g)
       \<and> (W = length g \<longrightarrow>
            resize_to_resolution (length g) (map (map Fin) g) = Inr (map (map Fin) g))"
  using zoom_same_size [OF rect H W] resize_same_size [of g] rect H by simp

theorem resample_identity_witness:
  "length [[0, 1 / 3], [2 / 3, 1 :: real]] = 2
   \<and> ndimage_zoom (1, 1) [[Fin 0, Fin (1 / 3)], [Fin (2 / 3), Fin 1]]
       = Inr [[Fin 0, Fin (1 / 3)], [Fin (2 / 3), Fin 1]]
   \<and> resize_to_resolution 2 [[Fin 0, Fin (1 / 3)], [Fin (2 / 3), Fin 1]]
       = Inr [[Fin 0, Fin (1 / 3)], [Fin (2 / 3), Fin 1]]"
  using resample_identity [of "[[0, 1 / 3], [2 / 3, 1]]" 2]
  by (simp add: numeral_2_eq_2)

subsection \<open>No-data cells in the GDAL scripts\<close>

text \<open>
  C4 fails in the GDAL scripts. \<^verbatim>\<open>dem_processor.py\<close> and \<^verbatim>\<open>process_dem_with_gdal\<close>
  never read the no-data value of the band, so a no-data cell enters the normalizer as an
  elevation. On a \<open>2\<times>2\<close> raster with elevations 100, 150, 200 and one no-data cell
  \<open>-9999\<close> the sentinel becomes the minimum and the three elevations are squeezed into
  the top one percent of the gray range; \<^verbatim>\<open>process_dem_with_rasterio\<close> in the same file
  masks the cell and spreads the elevations over the whole range.
\<close>

theorem gdal_keeps_sentinel:
  "gdal_heightmap \<lparr>band1 = [[Fin (- 9999), Fin 100], [Fin 150, Fin 200]],
                   nodata = Some (Fin (- 9999))\<rparr> 2
     = Inr [[0, 64892], [65213, 65535]]
   \<and> rasterio_heightmap \<lparr>band1 = [[Fin (- 9999), Fin 100], [Fin 150, Fin 200]],
                          nodata = Some (Fin (- 9999))\<rparr> 2
     = Inr [[0, 0], [32767, 65535]]"
proof -
  have q: "fl_of (10099 / 10199) = Fin (4459442360703465 / 4503599627370496)"
    "fl_of (10149 / 10199) = Fin (8963041988073961 / 9007199254740992)"
    "fl_of (1 / 2) = Fin (1 / 2)"
    by (simp_all add: fl_of_def rd_at [where a = 0 and b = 53] py_round_def dbl_max_def)
  have p: "fl_of (292249555108701578775 / 4503599627370496) = Fin (8918748630026293 / 137438953472)"
    "fl_of (587392956688427034135 / 9007199254740992) = Fin (8962905222906907 / 137438953472)"
    "fl_of (65535 / 2) = Fin (65535 / 2)"
    by (simp_all add: fl_of_def rd_at [where a = 0 and b = 37] rd_at [where a = 0 and b = 38]
        py_round_def dbl_max_def)
  have norm: "normalize_gdal [[Fin (- 9999), Fin 100], [Fin 150, Fin 200]] =
      Inr [[Fin 0, Fin (4459442360703465 / 4503599627370496)],
           [Fin (8963041988073961 / 9007199254740992), Fin 1]]"
    by (simp add: normalize_gdal_def np_min_def np_max_def reduce_def min2_def max2_def
        rescale_def q)
  have same1: "resize_to_resolution 2
        [[Fin 0, Fin (4459442360703465 / 4503599627370496)],
         [Fin (8963041988073961 / 9007199254740992), Fin 1]]
      = Inr [[Fin 0, Fin (4459442360703465 / 4503599627370496)],
             [Fin (8963041988073961 / 9007199254740992), Fin 1]]"
    using resize_same_size [of "[[0, 4459442360703465 / 4503599627370496],
                                 [8963041988073961 / 9007199254740992, 1]]"]
    by (simp add: numeral_2_eq_2)
  have gdal: "gdal_heightmap \<lparr>band1 = [[Fin (- 9999), Fin 100], [Fin 150, Fin 200]],
                   nodata = Some (Fin (- 9999))\<rparr> 2 = Inr [[0, 64892], [65213, 65535]]"
    by (simp add: gdal_heightmap_def norm same1 quantize_16bit_def p trunc_def)
  have norm2: "normalize_rasterio [[NaN, Fin 100], [Fin 150, Fin 200]] =
      Inr [[Fin 0, Fin 0], [Fin (1 / 2), Fin 1]]"
    by (simp add: normalize_rasterio_def rasterio_scaled_def np_nanmin_def np_nanmax_def
        reduce_def nanmin2_def nanmax2_def rescale_def fl_sub_def q)
  have same2: "resize_to_resolution 2 [[Fin 0, Fin 0], [Fin (1 / 2), Fin 1]]
      = Inr [[Fin 0, Fin 0], [Fin (1 / 2), Fin 1]]"
    using resize_same_size [of "[[0, 0], [1 / 2, 1]]"]
    by (simp add: numeral_2_eq_2)
  have rio: "rasterio_heightmap \<lparr>band1 = [[Fin (- 9999), Fin 100], [Fin 150, Fin 200]],
                          nodata = Some (Fin (- 9999))\<rparr> 2 = Inr [[0, 0], [32767, 65535]]"
    by (simp add: rasterio_heightmap_def handle_nodata_def norm2 same2 quantize_16bit_def p
        trunc_def)
  from gdal rio show ?thesis by blast
qed

subsection \<open>Validation of the resolution\<close>

lemma gdal_heightmap_returns:
  assumes "0 < T"
  shows "\<exists>heightmap. gdal_heightmap \<lparr>band1 = [[Fin 0, Fin 1]], nodata = nd\<rparr> T = Inr heightmap"
proof -
  have "normalize_gdal [[Fin 0, Fin 1]] = Inr (map (map Fin) [[0, 1]])"
    by (simp add: normalize_gdal_def np_min_def np_max_def reduce_def min2_def max2_def
        rescale_def)
  moreover have "\<exists>resized. resize_to_resolution T (map (map Fin) [[0, 1]]) = Inr resized"
    using resize_Fin [of "[[0, 1]]" 2 T] assms by simp
  ultimately show ?thesis
    by (auto simp: gdal_heightmap_def)
qed

text \<open>
  C7, as the code has it. For a request whose resolution (513 when absent) is not one of
  129, 257, 513, 1025, 2049, 4097 the endpoint \<^verbatim>\<open>/api/process-dem\<close> answers with status
  400 and leaves the world as it was: no file is looked up, opened or written. When the
  request carries a file id the message is the one about the resolution.
\<close>

theorem process_dem_rejects:
  assumes "(case req_resolution req of None \<Rightarrow> 513 | Some r \<Rightarrow> r)
             \<notin> {129, 257, 513, 1025, 2049, 4097}"
  shows "(\<exists>msg. process_dem L req w = (w, Error_response 400 msg))
       \<and> (\<forall>file_id. req_file_id req = Some file_id \<and> file_id \<noteq> [] \<longrightarrow>
            process_dem L req w =
              (w, Error_response 400 (Msg ''Invalid resolution. Must be 2^n + 1'')))"
  using assms by (auto simp add: process_dem_def supported_resolutions_def Let_def)

theorem process_dem_rejects_witness:
  "(case req_resolution \<lparr>req_file_id = Some ''ab'', req_resolution = Some 500\<rparr> of
      None \<Rightarrow> 513 | Some r \<Rightarrow> r) \<notin> {129, 257, 513, 1025, 2049, 4097 :: int}
   \<and> process_dem sample_libs \<lparr>req_file_id = Some ''ab'', req_resolution = Some 500\<rparr>
        \<lparr>files = [''temp/dem_ab.tif'' \<mapsto> Tiff \<lparr>band1 = [[Fin 0, Fin 1]], nodata = None\<rparr>],
         fs_log = []\<rparr>
     = (\<lparr>files = [''temp/dem_ab.tif'' \<mapsto> Tiff \<lparr>band1 = [[Fin 0, Fin 1]], nodata = None\<rparr>],
         fs_log = []\<rparr>,
        Error_response 400 (Msg ''Invalid resolution. Must be 2^n + 1''))"
  using process_dem_rejects [of "\<lparr>req_file_id = Some ''ab'', req_resolution = Some 500\<rparr>"
      sample_libs
      "\<lparr>files = [''temp/dem_ab.tif'' \<mapsto> Tiff \<lparr>band1 = [[Fin 0, Fin 1]], nodata = None\<rparr>],
        fs_log = []\<rparr>"]
  by simp

text \<open>
  The script \<^verbatim>\<open>dem_processor.py\<close> has no such check: with resolution 500 it opens the
  raster, creates the output directory, writes the heightmap and returns its path.
\<close>

theorem dem_processor_unvalidated_counterexample:
  "500 \<notin> set supported_resolutions
   \<and> snd (dem_processor ''in/dem.tif'' ''out/h.png'' 500
        \<lparr>files = [''in/dem.tif'' \<mapsto> Tiff \<lparr>band1 = [[Fin 0, Fin 1]], nodata = None\<rparr>],
         fs_log = []\<rparr>) = Inr ''out/h.png''
   \<and> fs_log (fst (dem_processor ''in/dem.tif'' ''out/h.png'' 500
        \<lparr>files = [''in/dem.tif'' \<mapsto> Tiff \<lparr>band1 = [[Fin 0, Fin 1]], nodata = None\<rparr>],
         fs_log = []\<rparr>))
     = [Open_raster ''in/dem.tif'', Makedirs ''out'', Write_file ''out/h.png'']"
proof -
  obtain heightmap where
    hm: "gdal_heightmap \<lparr>band1 = [[Fin 0, Fin 1]], nodata = None\<rparr> 500 = Inr heightmap"
    using gdal_heightmap_returns [of 500 None] by auto
  show ?thesis
    by (simp add: dem_processor_def hm os_path_dirname_def supported_resolutions_def Let_def)
qed

end
